theory Spec2Isabelle
  imports Complex_Main "HOL-Library.Char_ord" "HOL-Library.List_Lexorder" "HOL-Library.Multiset"
begin

section \<open>The employee table\<close>

text \<open>
  \<^verbatim>\<open>app1.py\<close> reads \<^verbatim>\<open>united.csv\<close> into a dataframe and rewrites two of its columns
  (lines 26 to 41). A row of the file as read is a \<open>csv_row\<close>: the two label columns are
  strings, the other columns are taken as read, with every cell present. A row of the
  dataframe after line 41 is a \<open>row\<close>: it has the columns of the file and the three columns
  the script computes. A cell the script leaves as NaN is \<open>None\<close>.

  Strings are byte lists; the en dash of the labels is its three UTF-8 bytes. Rates are
  exact reals: the rounding of the 64-bit floats of the script is not modelled.
\<close>

record csv_row =
  Attrition_label :: string
  OverTime_label :: string
  JobRole :: string
  JobLevel :: int
  Department :: string
  DistanceFromHome :: real
  YearsAtCompany :: real
  EmployeeNumber :: int

record row = csv_row +
  Attrition :: "int option"
  OverTime :: "bool option"
  YearsAtCompanyGroup :: "string option"

datatype py_error = KeyError string | IndexError

definition en_dash :: string where
  "en_dash = [CHR 0xE2, CHR 0x80, CHR 0x93]"

subsection \<open>Series.map with a dictionary (lines 28 and 29)\<close>

text \<open>A value that is not a key of the dictionary becomes NaN.\<close>

definition map_Attrition :: "string \<Rightarrow> int option" where
  "map_Attrition s = (if s = ''Yes'' then Some 1 else if s = ''No'' then Some 0 else None)"

definition map_OverTime :: "string \<Rightarrow> bool option" where
  "map_OverTime s = (if s = ''Yes'' then Some True else if s = ''No'' then Some False else None)"

subsection \<open>pandas.cut\<close>

text \<open>
  An edge of a bin list is a number or \<^verbatim>\<open>float('inf')\<close>. \<open>searchsorted\<close> is numpy's on
  an increasing list: with side \<^verbatim>\<open>left\<close> the number of edges below the value, with side
  \<^verbatim>\<open>right\<close> the number of edges not above it. \<open>cut_ids\<close> follows pandas'
  \<^verbatim>\<open>_bins_to_cuts\<close>: side \<^verbatim>\<open>left\<close> when \<^verbatim>\<open>right=True\<close>, the first edge sent to bin 1
  under \<^verbatim>\<open>include_lowest\<close>, and no bin (NaN) for the ids 0 and \<^verbatim>\<open>len(bins)\<close>. The bin
  with id \<open>i\<close> carries the label \<open>labels ! (i - 1)\<close>. pandas refuses bins that do not
  increase and a label list of the wrong length; the bins of the script are shown
  to increase strictly and to have one label for each bin.
\<close>

datatype edge = Fin real | Inf

fun edge_less :: "edge \<Rightarrow> real \<Rightarrow> bool" where
  "edge_less (Fin b) x = (b < x)"
| "edge_less Inf x = False"

fun edge_le :: "edge \<Rightarrow> real \<Rightarrow> bool" where
  "edge_le (Fin b) x = (b \<le> x)"
| "edge_le Inf x = False"

definition searchsorted :: "edge list \<Rightarrow> bool \<Rightarrow> real \<Rightarrow> nat" where
  "searchsorted bins side_left x =
     (if side_left then length (filter (\<lambda>b. edge_less b x) bins)
      else length (filter (\<lambda>b. edge_le b x) bins))"

definition cut_ids :: "edge list \<Rightarrow> bool \<Rightarrow> bool \<Rightarrow> real \<Rightarrow> nat option" where
  "cut_ids bins right include_lowest x =
     (let ids = searchsorted bins right x;
          ids = (if include_lowest \<and> bins \<noteq> [] \<and> hd bins = Fin x then 1 else ids)
      in if ids = length bins \<or> ids = 0 then None else Some ids)"

definition pd_cut :: "edge list \<Rightarrow> string list \<Rightarrow> bool \<Rightarrow> bool \<Rightarrow> real \<Rightarrow> string option" where
  "pd_cut bins labels right include_lowest x =
     map_option (\<lambda>i. labels ! (i - 1)) (cut_ids bins right include_lowest x)"

subsection \<open>The tenure groups (lines 33 to 41)\<close>

definition tenure_bins :: "edge list" where
  "tenure_bins = [Fin 0, Fin 2, Fin 5, Fin 10, Inf]"

definition tenure_labels :: "string list" where
  "tenure_labels =
     [''0'' @ en_dash @ ''2 years'', ''2'' @ en_dash @ ''5 years'',
      ''5'' @ en_dash @ ''10 years'', ''10+ years'']"

definition tenure_group :: "real \<Rightarrow> string option" where
  "tenure_group y = pd_cut tenure_bins tenure_labels False True y"

subsection \<open>Loading (lines 26 to 41)\<close>

definition derive :: "csv_row \<Rightarrow> row" where
  "derive c = csv_row.extend c
     (row.fields (map_Attrition (Attrition_label c)) (map_OverTime (OverTime_label c))
        (tenure_group (YearsAtCompany c)))"

definition load_data :: "csv_row list \<Rightarrow> row list" where
  "load_data csv = map derive csv"

section \<open>Grouped rates\<close>

text \<open>
  \<^verbatim>\<open>groupby\<close> on a plain column makes one group for each value of the column, in
  increasing order of the value (\<^verbatim>\<open>sort=True\<close> is the default). The two lambdas of the
  aggregation get the \<^verbatim>\<open>Attrition\<close> cells of a group, which is never empty.
\<close>

definition group_keys :: "('r \<Rightarrow> 'k::linorder) \<Rightarrow> 'r list \<Rightarrow> 'k list" where
  "group_keys f rows = sort (remdups (map f rows))"

definition rate_lambda :: "int \<Rightarrow> int option list \<Rightarrow> real" where
  "rate_lambda v x = 100 * real (length (filter (\<lambda>a. a = Some v) x)) / real (length x)"

record role_agg =
  role :: string
  count_JobRole :: nat
  attrition_left :: real
  attrition_stay :: real

definition agg_JobRole :: "row list \<Rightarrow> string \<Rightarrow> role_agg" where
  "agg_JobRole rows k =
     (let x = map Attrition (filter (\<lambda>r. JobRole r = k) rows)
      in \<lparr>role = k, count_JobRole = length x,
          attrition_left = rate_lambda 1 x, attrition_stay = rate_lambda 0 x\<rparr>)"

text \<open>The table of lines 59 to 62, before it is sorted.\<close>

definition groupby_JobRole :: "row list \<Rightarrow> role_agg list" where
  "groupby_JobRole rows = map (agg_JobRole rows) (group_keys JobRole rows)"

text \<open>
  \<^verbatim>\<open>sort_values(..., ascending=False)\<close> is called without \<^verbatim>\<open>kind\<close>, so pandas sorts with
  numpy's quicksort, which is not stable: the result holds the rows of the table in
  decreasing order of the key, and rows with equal keys in an order that depends on the
  sort kernel of the numpy at hand. \<open>sort_values_desc f xs ys\<close> says that \<open>ys\<close> is a
  table the call may return for the table \<open>xs\<close>: the same rows, in decreasing order of
  the key. \<open>jobrole_attr rows tbl\<close> says that \<open>tbl\<close> is a table that lines 58 to 64 may
  compute from the rows.
\<close>

definition sort_values_desc :: "('r \<Rightarrow> real) \<Rightarrow> 'r list \<Rightarrow> 'r list \<Rightarrow> bool" where
  "sort_values_desc f xs ys = (mset ys = mset xs \<and> sorted_wrt (\<lambda>a b. f b \<le> f a) ys)"

definition jobrole_attr :: "row list \<Rightarrow> role_agg list \<Rightarrow> bool" where
  "jobrole_attr rows tbl = sort_values_desc attrition_left (groupby_JobRole rows) tbl"

subsection \<open>The Highest Risk Role KPI (lines 65 to 70)\<close>



subsection \<open>The job role chart (lines 81 to 106)\<close>

text \<open>
  The select box of lines 81 and 82 offers \<^verbatim>\<open>'All'\<close> and the departments of the table.
  \<open>jobrole_chart\<close> is what lines 94 to 106 show for the table \<^verbatim>\<open>jobrole_attr_filtered\<close>,
  which lines 87 to 93 compute from the filtered rows as lines 58 to 64 do from all rows.
\<close>

datatype 'a rendered = Chart 'a | NoData


definition filter_department :: "string \<Rightarrow> row list \<Rightarrow> row list" where
  "filter_department selected_dept rows =
     (if selected_dept \<noteq> ''All'' then filter (\<lambda>r. Department r = selected_dept) rows
      else rows)"


section \<open>The distance chart (lines 128 to 150)\<close>

text \<open>
  \<^verbatim>\<open>int\<close> of a number cuts its fraction off. \<open>py_range\<close> is \<^verbatim>\<open>range\<close> with a positive
  step (the script's is 7). \<open>str_int\<close> is the decimal text of an integer, as an
  f-string writes it.
\<close>

definition py_int :: "real \<Rightarrow> int" where
  "py_int x = (if 0 \<le> x then \<lfloor>x\<rfloor> else \<lceil>x\<rceil>)"

function py_range :: "int \<Rightarrow> int \<Rightarrow> int \<Rightarrow> int list" where
  "py_range start stop step =
     (if 0 < step \<and> start < stop then start # py_range (start + step) stop step else [])"
  by pat_completeness auto
termination
  by (relation "measure (\<lambda>(start, stop, step). nat (stop - start))") auto

definition digit :: "nat \<Rightarrow> char" where
  "digit d = ''0123456789'' ! d"

function str_nat :: "nat \<Rightarrow> string" where
  "str_nat n = (if n < 10 then [digit n] else str_nat (n div 10) @ [digit (n mod 10)])"
  by pat_completeness auto
termination
  by (relation "measure (\<lambda>n. n)") auto

definition str_int :: "int \<Rightarrow> string" where
  "str_int i = (if i < 0 then CHR ''-'' # str_nat (nat (- i)) else str_nat (nat i))"

text \<open>
  Lines 131 to 135. \<^verbatim>\<open>bin_edges[-1]\<close> raises IndexError on an empty list.
\<close>

definition min_dist :: "row list \<Rightarrow> real" where
  "min_dist filtered_df =
     (if filtered_df \<noteq> [] then Min (set (map DistanceFromHome filtered_df)) else 0)"

definition max_dist :: "row list \<Rightarrow> real" where
  "max_dist filtered_df =
     (if filtered_df \<noteq> [] then Max (set (map DistanceFromHome filtered_df)) else 0)"

definition bin_edges :: "row list \<Rightarrow> py_error + int list" where
  "bin_edges filtered_df =
     (let edges =
            (if max_dist filtered_df > 0
             then py_range (py_int (min_dist filtered_df)) (py_int (max_dist filtered_df) + 7) 7
             else [0, 1])
      in if edges = [] then Inl IndexError
         else if real_of_int (last edges) < max_dist filtered_df
         then Inr (edges @ [py_int (max_dist filtered_df) + 1])
         else Inr edges)"

text \<open>The edges that \<^verbatim>\<open>range\<close> gives on line 133 when the greatest distance is positive.\<close>

definition stepped :: "row list \<Rightarrow> int list" where
  "stepped rows = py_range (py_int (min_dist rows)) (py_int (max_dist rows) + 7) 7"

text \<open>Line 136.\<close>

definition range_labels :: "int list \<Rightarrow> string list" where
  "range_labels edges =
     (if length edges > 1
      then map (\<lambda>i. str_int (edges ! i) @ en_dash @ str_int (edges ! (i + 1) - 1))
             [0..<length edges - 1]
      else [''0-1''])"

text \<open>
  Line 137: \<^verbatim>\<open>pd.cut\<close> with \<^verbatim>\<open>include_lowest=True\<close> and the default \<^verbatim>\<open>right=True\<close>, or the
  text \<^verbatim>\<open>"0-1"\<close> in every row. \<open>distance_bin\<close> is the number of the bin, from 1.
\<close>

definition distance_bin :: "int list \<Rightarrow> real \<Rightarrow> nat option" where
  "distance_bin edges d = cut_ids (map (\<lambda>e. Fin (real_of_int e)) edges) True True d"

definition DistanceFromHomeRange :: "int list \<Rightarrow> real \<Rightarrow> string option" where
  "DistanceFromHomeRange edges d =
     (if length edges > 1
      then pd_cut (map (\<lambda>e. Fin (real_of_int e)) edges) (range_labels edges) True True d
      else Some ''0-1'')"

text \<open>
  Lines 138 to 143. The groups are the pairs of a range label and a job role: the
  range column is categorical, so \<^verbatim>\<open>groupby\<close> (with \<^verbatim>\<open>observed=False\<close>) has a row for
  every label and every role of the table, and a pair that no row has gets the count 0
  and NaN for the rate. From pandas 3 such a pair has no row at all; line 143 removes
  it in both cases. \<^verbatim>\<open>count\<close> is the number of cells of \<^verbatim>\<open>Attrition\<close> that are not NaN.
\<close>

record summary_row =
  range_key :: string
  role_key :: string
  count :: nat
  summary_left :: "real option"

definition summary_group :: "int list \<Rightarrow> row list \<Rightarrow> string \<Rightarrow> string \<Rightarrow> row list" where
  "summary_group edges filtered_df b k =
     filter (\<lambda>r. DistanceFromHomeRange edges (DistanceFromHome r) = Some b \<and> JobRole r = k)
       filtered_df"

definition summary_agg :: "int list \<Rightarrow> row list \<Rightarrow> string \<Rightarrow> string \<Rightarrow> summary_row" where
  "summary_agg edges filtered_df b k =
     (let x = map Attrition (summary_group edges filtered_df b k)
      in \<lparr>range_key = b, role_key = k,
          count = length (filter (\<lambda>a. a \<noteq> None) x),
          summary_left = (if x = [] then None else Some (rate_lambda 1 x))\<rparr>)"

definition summary :: "string \<Rightarrow> row list \<Rightarrow> py_error + summary_row list" where
  "summary selected_dept2 rows =
     (let filtered_df = filter_department selected_dept2 rows
      in case bin_edges filtered_df of
           Inl e \<Rightarrow> Inl e
         | Inr edges \<Rightarrow>
             Inr (filter (\<lambda>g. count g > 7)
                    (concat (map (\<lambda>b. map (summary_agg edges filtered_df b)
                                        (group_keys JobRole filtered_df))
                               (range_labels edges)))))"

definition distance_chart :: "string \<Rightarrow> row list \<Rightarrow> py_error + summary_row list rendered" where
  "distance_chart selected_dept2 rows =
     (case summary selected_dept2 rows of
        Inl e \<Rightarrow> Inl e
      | Inr s \<Rightarrow> Inr (if s \<noteq> [] then Chart s else NoData))"

section \<open>The overtime and job level charts (lines 160 to 197)\<close>

text \<open>
  A cross table has an index, column labels and one list of cells for each index
  entry. \<^verbatim>\<open>rename(columns={1: "Left", 0: "Stayed"})\<close> renames the two columns it
  names and keeps the others; reading a column that the table does not have raises
  KeyError.
\<close>

datatype col = IntCol int | StrCol string

record 'i frame =
  index :: "'i list"
  columns :: "col list"
  cells :: "real option list list"

definition rename_columns :: "'i frame \<Rightarrow> 'i frame" where
  "rename_columns t =
     t\<lparr>columns := map (\<lambda>c. if c = IntCol 1 then StrCol ''Left''
                           else if c = IntCol 0 then StrCol ''Stayed'' else c) (columns t)\<rparr>"

definition times100 :: "'i frame \<Rightarrow> 'i frame" where
  "times100 t = t\<lparr>cells := map (map (map_option (\<lambda>v. v * 100))) (cells t)\<rparr>"

fun position :: "'a \<Rightarrow> 'a list \<Rightarrow> nat option" where
  "position c [] = None"
| "position c (x # xs) = (if x = c then Some 0 else map_option Suc (position c xs))"

definition get_column :: "'i frame \<Rightarrow> string \<Rightarrow> py_error + real option list" where
  "get_column t name =
     (case position (StrCol name) (columns t) of
        None \<Rightarrow> Inl (KeyError name)
      | Some j \<Rightarrow> Inr (map (\<lambda>cs. cs ! j) (cells t)))"

text \<open>
  \<^verbatim>\<open>pd.crosstab(a, b, normalize='index')\<close>: the rows in which \<open>a\<close> or \<open>b\<close> is NaN are
  left out, the index and the columns are the values that remain, in increasing
  order, and a cell is the share of its index entry's rows that have the column's
  value.
\<close>

definition overtime_label :: "bool \<Rightarrow> string" where
  "overtime_label b = (if b then ''Did Overtime'' else ''Did Not Do Overtime'')"

definition crosstab :: "(string option \<times> int option) list \<Rightarrow> string frame" where
  "crosstab ps =
     (let kept = [(a, b). (Some a, Some b) \<leftarrow> ps];
          idx = sort (remdups (map fst kept));
          cols = sort (remdups (map snd kept))
      in \<lparr>index = idx, columns = map IntCol cols,
          cells = map (\<lambda>a. map (\<lambda>b. Some (real (length (filter (\<lambda>p. p = (a, b)) kept))
                                            / real (length (filter (\<lambda>p. fst p = a) kept))))
                                cols) idx\<rparr>)"

definition filter_overtime :: "string \<Rightarrow> row list \<Rightarrow> row list" where
  "filter_overtime selected_overtime rows =
     (if selected_overtime \<noteq> ''All''
      then filter (\<lambda>r. OverTime r = Some (selected_overtime = ''Yes'')) rows
      else rows)"

definition overtime_attrition :: "string \<Rightarrow> row list \<Rightarrow> string frame" where
  "overtime_attrition selected_overtime rows =
     rename_columns (times100 (crosstab
       (map (\<lambda>r. (map_option overtime_label (OverTime r), Attrition r))
          (filter_overtime selected_overtime rows))))"

text \<open>The figure of lines 167 to 170 reads the column Left, then the column Stayed.\<close>

definition overtime_chart ::
  "string \<Rightarrow> row list \<Rightarrow> py_error + (string list \<times> real option list \<times> real option list)" where
  "overtime_chart selected_overtime rows =
     (let t = overtime_attrition selected_overtime rows
      in case get_column t ''Left'' of
           Inl e \<Rightarrow> Inl e
         | Inr left \<Rightarrow>
             (case get_column t ''Stayed'' of
                Inl e \<Rightarrow> Inl e
              | Inr stayed \<Rightarrow> Inr (index t, left, stayed)))"

text \<open>
  \<^verbatim>\<open>groupby("JobLevel")["Attrition"].value_counts(normalize=True).unstack()\<close>: for each
  job level, the share of each value of \<^verbatim>\<open>Attrition\<close> among the cells of the level that
  are not NaN; a value that a level does not have is NaN in the table. The selection
  is \<open>None\<close> for \<^verbatim>\<open>'All'\<close> and \<open>Some l\<close> for the text of the level \<open>l\<close>.
\<close>

definition value_counts_unstack :: "row list \<Rightarrow> int frame" where
  "value_counts_unstack rows =
     (let kept = [(JobLevel r, a). r \<leftarrow> rows, Some a \<leftarrow> [Attrition r]];
          idx = sort (remdups (map fst kept));
          cols = sort (remdups (map snd kept))
      in \<lparr>index = idx, columns = map IntCol cols,
          cells = map (\<lambda>l. map (\<lambda>b. let c = length (filter (\<lambda>p. p = (l, b)) kept)
                                     in if c = 0 then None
                                        else Some (real c
                                               / real (length (filter (\<lambda>p. fst p = l) kept))))
                                cols) idx\<rparr>)"

definition filter_level :: "int option \<Rightarrow> row list \<Rightarrow> row list" where
  "filter_level selected_level rows =
     (case selected_level of None \<Rightarrow> rows
      | Some l \<Rightarrow> filter (\<lambda>r. JobLevel r = l) rows)"

definition joblevel_attrition :: "int option \<Rightarrow> row list \<Rightarrow> int frame" where
  "joblevel_attrition selected_level rows =
     times100 (rename_columns (value_counts_unstack (filter_level selected_level rows)))"

text \<open>The figure of lines 192 to 195 reads the column Stayed, then the column Left.\<close>

definition joblevel_chart ::
  "int option \<Rightarrow> row list \<Rightarrow> py_error + (int list \<times> real option list \<times> real option list)" where
  "joblevel_chart selected_level rows =
     (let t = joblevel_attrition selected_level rows
      in case get_column t ''Stayed'' of
           Inl e \<Rightarrow> Inl e
         | Inr stayed \<Rightarrow>
             (case get_column t ''Left'' of
                Inl e \<Rightarrow> Inl e
              | Inr left \<Rightarrow> Inr (index t, stayed, left)))"

section \<open>The job level and tenure heatmap (lines 272 to 285)\<close>

text \<open>
  A 64-bit float of the table is a number, NaN or an infinity; the division is numpy's.
  The tenure column is categorical, so the grouping has a row for every job level of
  the table and every tenure label, with the count 0 and the sum 0 where no row of the
  table has the pair (\<^verbatim>\<open>observed=False\<close>; from pandas 3 the pair has no row, and
  \<^verbatim>\<open>pivot\<close> fills its cell with NaN). \<^verbatim>\<open>pivot\<close> puts the rate of a pair into the cell
  of its job level and tenure label.
\<close>

datatype fval = Num real | NaN | PosInf | NegInf

definition np_div :: "real \<Rightarrow> real \<Rightarrow> fval" where
  "np_div a b =
     (if b \<noteq> 0 then Num (a / b)
      else if a = 0 then NaN else if 0 < a then PosInf else NegInf)"

fun np_times :: "fval \<Rightarrow> real \<Rightarrow> fval" where
  "np_times (Num v) c = Num (v * c)"
| "np_times NaN c = NaN"
| "np_times PosInf c = (if 0 < c then PosInf else if c < 0 then NegInf else NaN)"
| "np_times NegInf c = (if 0 < c then NegInf else if c < 0 then PosInf else NaN)"

record cross_row =
  level_key :: int
  tenure_key :: string
  Total_Employees :: nat
  Left :: int
  Attrition_Rate :: fval

definition cross_group :: "row list \<Rightarrow> int \<Rightarrow> string \<Rightarrow> row list" where
  "cross_group rows l b =
     filter (\<lambda>r. JobLevel r = l \<and> YearsAtCompanyGroup r = Some b) rows"

definition cross_agg :: "row list \<Rightarrow> int \<Rightarrow> string \<Rightarrow> cross_row" where
  "cross_agg rows l b =
     (let g = cross_group rows l b;
          total = length g;
          left = sum_list [a. Some a \<leftarrow> map Attrition g]
      in \<lparr>level_key = l, tenure_key = b, Total_Employees = total, Left = left,
          Attrition_Rate = np_times (np_div (real_of_int left) (real total)) 100\<rparr>)"

definition joblevel_tenure_attrition :: "row list \<Rightarrow> cross_row list" where
  "joblevel_tenure_attrition rows =
     concat (map (\<lambda>l. map (cross_agg rows l) tenure_labels) (group_keys JobLevel rows))"

record pivot =
  pivot_index :: "int list"
  pivot_columns :: "string list"
  pivot_cells :: "fval list list"

definition pivot_table :: "row list \<Rightarrow> pivot" where
  "pivot_table rows =
     (let long = joblevel_tenure_attrition rows;
          idx = sort (remdups (map level_key long));
          cols = filter (\<lambda>b. b \<in> set (map tenure_key long)) tenure_labels
      in \<lparr>pivot_index = idx, pivot_columns = cols,
          pivot_cells =
            map (\<lambda>l. map (\<lambda>b. case find (\<lambda>g. level_key g = l \<and> tenure_key g = b) long of
                                 None \<Rightarrow> NaN
                               | Some g \<Rightarrow> Attrition_Rate g) cols) idx\<rparr>)"

section \<open>Sample tables\<close>

text \<open>
  \<open>employee r a ot l d y\<close> is a row of the file with the job role \<open>r\<close>, the attrition
  label \<open>a\<close>, the overtime label \<open>ot\<close>, the job level \<open>l\<close>, the distance \<open>d\<close> and the
  tenure \<open>y\<close>, in the department Sales. The tables below are the inputs of the examples.
\<close>

definition employee :: "string \<Rightarrow> string \<Rightarrow> string \<Rightarrow> int \<Rightarrow> real \<Rightarrow> real \<Rightarrow> csv_row" where
  "employee r a ot l d y =
     \<lparr>Attrition_label = a, OverTime_label = ot, JobRole = r, JobLevel = l,
      Department = ''Sales'', DistanceFromHome = d, YearsAtCompany = y, EmployeeNumber = 1\<rparr>"

definition clerks :: "row list" where
  "clerks = load_data [employee ''Clerk'' ''Yes'' ''No'' 1 3 1, employee ''Clerk'' ''No'' ''No'' 1 3 1,
                       employee ''Clerk'' ''No'' ''No'' 1 3 1]"

definition clerks_agg :: role_agg where
  "clerks_agg =
     \<lparr>role = ''Clerk'', count_JobRole = 3, attrition_left = 100 / 3, attrition_stay = 200 / 3\<rparr>"

definition maybe_csv :: "csv_row list" where
  "maybe_csv = [employee ''Clerk'' ''Maybe'' ''No'' 1 3 1]"

definition abc_table :: "row list" where
  "abc_table = load_data
     [employee ''B'' ''Yes'' ''No'' 1 3 1, employee ''B'' ''Yes'' ''No'' 1 3 1, employee ''B'' ''No'' ''No'' 1 3 1,
      employee ''B'' ''No'' ''No'' 1 3 1, employee ''B'' ''No'' ''No'' 1 3 1,
      employee ''A'' ''Yes'' ''No'' 1 3 1, employee ''A'' ''Yes'' ''No'' 1 3 1, employee ''A'' ''No'' ''No'' 1 3 1,
      employee ''A'' ''No'' ''No'' 1 3 1, employee ''A'' ''No'' ''No'' 1 3 1,
      employee ''C'' ''Yes'' ''No'' 1 3 1, employee ''C'' ''No'' ''No'' 1 3 1, employee ''C'' ''No'' ''No'' 1 3 1,
      employee ''C'' ''No'' ''No'' 1 3 1]"

definition tenure_csv :: "csv_row list" where
  "tenure_csv = [employee ''Clerk'' ''Yes'' ''No'' 1 3 0, employee ''Clerk'' ''No'' ''No'' 1 3 2,
                 employee ''Clerk'' ''No'' ''No'' 2 3 (9 / 2), employee ''Clerk'' ''No'' ''No'' 2 3 10,
                 employee ''Clerk'' ''No'' ''No'' 2 3 40]"

definition level_table :: "row list" where
  "level_table = load_data [employee ''Clerk'' ''Yes'' ''No'' 1 3 1, employee ''Clerk'' ''No'' ''No'' 1 3 1,
                            employee ''Manager'' ''No'' ''Yes'' 5 3 12]"

definition commuters :: "row list" where
  "commuters = load_data [employee ''Clerk'' ''Yes'' ''No'' 1 0 1, employee ''Clerk'' ''No'' ''No'' 1 14 1]"

definition far_commuters :: "row list" where
  "far_commuters = load_data [employee ''Clerk'' ''Yes'' ''No'' 1 1 1, employee ''Clerk'' ''No'' ''No'' 1 29 1]"

definition week_commuters :: "row list" where
  "week_commuters = load_data [employee ''Clerk'' ''Yes'' ''No'' 1 0 1, employee ''Clerk'' ''No'' ''No'' 1 7 1]"

definition office :: "row list" where
  "office = load_data (replicate 8 (employee ''Clerk'' ''No'' ''No'' 1 3 1)
                       @ replicate 7 (employee ''Manager'' ''No'' ''No'' 3 10 1))"

definition office_maybe :: "row list" where
  "office_maybe = load_data (replicate 7 (employee ''Clerk'' ''No'' ''No'' 1 3 1)
                       @ [employee ''Clerk'' ''Maybe'' ''No'' 1 3 1, employee ''Manager'' ''No'' ''No'' 3 10 1])"

definition three_roles :: "row list" where
  "three_roles = load_data [employee ''Manager'' ''Yes'' ''No'' 1 3 1, employee ''Analyst'' ''Yes'' ''No'' 1 3 1,
                            employee ''Sales'' ''Yes'' ''No'' 1 3 1]"

definition role_row :: "string \<Rightarrow> nat \<Rightarrow> real \<Rightarrow> real \<Rightarrow> role_agg" where
  "role_row k n l s = \<lparr>role = k, count_JobRole = n, attrition_left = l, attrition_stay = s\<rparr>"

section \<open>Facts about grouping and sorting\<close>

lemmas eval_defs = jobrole_attr_def groupby_JobRole_def load_data_def employee_def derive_def
  group_keys_def agg_JobRole_def sort_values_desc_def rate_lambda_def map_Attrition_def
  map_OverTime_def csv_row.defs row.defs

lemma set_group_keys: "set (group_keys f rows) = f ` set rows"
  by (simp add: group_keys_def)

lemma distinct_group_keys: "distinct (group_keys f rows)"
  by (simp add: group_keys_def)

lemma sorted_group_keys: "sorted (group_keys f rows)"
  by (simp add: group_keys_def)

lemma length_load_data: "length (load_data csv) = length csv"
  by (simp add: load_data_def)

section \<open>The tenure groups partition the tenures\<close>

lemma distinct_tenure_labels: "distinct tenure_labels"
  by (simp add: tenure_labels_def en_dash_def)

lemma tenure_group_cases:
  "tenure_group y =
     (if y < 0 then None else if y < 2 then Some (tenure_labels ! 0)
      else if y < 5 then Some (tenure_labels ! 1)
      else if y < 10 then Some (tenure_labels ! 2) else Some (tenure_labels ! 3))"
  by (simp add: tenure_group_def pd_cut_def cut_ids_def searchsorted_def tenure_bins_def Let_def
      numeral_2_eq_2 numeral_3_eq_3)

lemma less_4_cases: "i < (4::nat) \<Longrightarrow> i = 0 \<or> i = 1 \<or> i = 2 \<or> i = 3"
  by arith

lemma tenure_labels_nth_eq:
  "i < 4 \<Longrightarrow> j < 4 \<Longrightarrow> (tenure_labels ! i = tenure_labels ! j) = (i = j)"
  using distinct_tenure_labels by (simp add: nth_eq_iff_index_eq tenure_labels_def)

lemma tenure_group_interval:
  assumes "i < 4"
  shows "(tenure_group y = Some (tenure_labels ! i))
       = (edge_le (tenure_bins ! i) y \<and> \<not> edge_le (tenure_bins ! (i + 1)) y)"
proof -
  have l: "tenure_labels ! a = tenure_labels ! b \<longleftrightarrow> a = b" if "a < 4" "b < 4" for a b
    using that by (rule tenure_labels_nth_eq)
  from less_4_cases [OF assms] show ?thesis
    by (elim disjE) (simp_all add: tenure_group_cases l, simp_all add: tenure_bins_def)
qed

lemma tenure_group_unique:
  assumes "0 \<le> y"
  shows "\<exists>!i. i < 4 \<and> tenure_group y = Some (tenure_labels ! i)"
proof -
  have "\<exists>i<4. tenure_group y = Some (tenure_labels ! i)"
  proof (cases "y < 2")
    case True
    with assms have "tenure_group y = Some (tenure_labels ! 0)" by (simp add: tenure_group_cases)
    then show ?thesis by (intro exI [of _ 0]) simp
  next
    case n2: False
    show ?thesis
    proof (cases "y < 5")
      case True
      with n2 have "tenure_group y = Some (tenure_labels ! 1)" by (simp add: tenure_group_cases)
      then show ?thesis by (intro exI [of _ 1]) simp
    next
      case n5: False
      show ?thesis
      proof (cases "y < 10")
        case True
        with n5 have "tenure_group y = Some (tenure_labels ! 2)" by (simp add: tenure_group_cases)
        then show ?thesis by (intro exI [of _ 2]) simp
      next
        case False
        then have "tenure_group y = Some (tenure_labels ! 3)" by (simp add: tenure_group_cases)
        then show ?thesis by (intro exI [of _ 3]) simp
      qed
    qed
  qed
  then obtain i where i: "i < 4" "tenure_group y = Some (tenure_labels ! i)" by blast
  have "j = i" if "j < 4" "tenure_group y = Some (tenure_labels ! j)" for j
    using that i tenure_labels_nth_eq [of j i] by simp
  with i show ?thesis by blast
qed

lemma count_one: "distinct ls \<Longrightarrow> a \<in> set ls \<Longrightarrow> (\<Sum>l\<leftarrow>ls. if a = l then 1 else 0) = (1::nat)"
  by (induction ls) auto

lemma group_counts_sum:
  assumes "distinct ls" and "\<forall>r\<in>set rows. \<exists>l\<in>set ls. G r = Some l"
  shows "(\<Sum>l\<leftarrow>ls. length (filter (\<lambda>r. G r = Some l) rows)) = length rows"
  using assms(2)
proof (induction rows)
  case Nil
  then show ?case by simp
next
  case (Cons r rows)
  then obtain a where a: "a \<in> set ls" "G r = Some a" by auto
  have "(\<Sum>l\<leftarrow>ls. length (filter (\<lambda>r. G r = Some l) (r # rows)))
      = (\<Sum>l\<leftarrow>ls. (if a = l then 1 else 0) + length (filter (\<lambda>r. G r = Some l) rows))"
    using a(2) by (intro arg_cong [where f = sum_list] map_cong) auto
  also have "\<dots> = (\<Sum>l\<leftarrow>ls. if a = l then 1 else 0) + (\<Sum>l\<leftarrow>ls. length (filter (\<lambda>r. G r = Some l) rows))"
    by (simp add: sum_list_addf)
  finally show ?case using Cons count_one [OF assms(1) a(1)] by simp
qed

lemma derive_years: "YearsAtCompany (derive c) = YearsAtCompany c"
  and derive_group: "YearsAtCompanyGroup (derive c) = tenure_group (YearsAtCompany c)"
  by (simp_all add: derive_def row.defs csv_row.defs)

text \<open>
  Claim C2. When no row has a negative \<^verbatim>\<open>YearsAtCompany\<close>, every row of the loaded table
  has exactly one of the four tenure labels, the label number \<open>i\<close> is the one of the
  row exactly when its tenure is at least the edge \<open>i\<close> and below the edge \<open>i + 1\<close> of
  0, 2, 5, 10 and infinity, and the member counts of the four labels add up to the number
  of rows.
\<close>

theorem tenure_buckets_partition:
  assumes "\<forall>c\<in>set csv. 0 \<le> YearsAtCompany c"
  shows "(\<forall>r\<in>set (load_data csv).
            (\<exists>!i. i < 4 \<and> YearsAtCompanyGroup r = Some (tenure_labels ! i)) \<and>
            (\<forall>i<4. (YearsAtCompanyGroup r = Some (tenure_labels ! i))
                  = (edge_le (tenure_bins ! i) (YearsAtCompany r) \<and>
                     \<not> edge_le (tenure_bins ! (i + 1)) (YearsAtCompany r)))) \<and>
         (\<Sum>l\<leftarrow>tenure_labels. length (filter (\<lambda>r. YearsAtCompanyGroup r = Some l) (load_data csv)))
           = length csv"
proof -
  have one: "(\<exists>!i. i < 4 \<and> YearsAtCompanyGroup r = Some (tenure_labels ! i)) \<and>
            (\<forall>i<4. (YearsAtCompanyGroup r = Some (tenure_labels ! i))
                  = (edge_le (tenure_bins ! i) (YearsAtCompany r) \<and>
                     \<not> edge_le (tenure_bins ! (i + 1)) (YearsAtCompany r)))"
    if "r \<in> set (load_data csv)" for r
  proof -
    from that obtain c where c: "c \<in> set csv" "r = derive c" by (auto simp: load_data_def)
    with assms have "0 \<le> YearsAtCompany c" by simp
    then show ?thesis
      using tenure_group_unique [of "YearsAtCompany c"] tenure_group_interval [of _ "YearsAtCompany c"]
      by (simp add: c(2) derive_years derive_group)
  qed
  have "\<forall>r\<in>set (load_data csv). \<exists>l\<in>set tenure_labels. YearsAtCompanyGroup r = Some l"
  proof
    fix r assume "r \<in> set (load_data csv)"
    from one [OF this] obtain i where "i < 4" "YearsAtCompanyGroup r = Some (tenure_labels ! i)"
      by blast
    moreover have "length tenure_labels = 4" by (simp add: tenure_labels_def)
    ultimately show "\<exists>l\<in>set tenure_labels. YearsAtCompanyGroup r = Some l"
      by (metis nth_mem)
  qed
  from group_counts_sum [OF distinct_tenure_labels this] one show ?thesis
    by (simp add: length_load_data)
qed

theorem tenure_buckets_witness:
  "list_all (\<lambda>c. 0 \<le> YearsAtCompany c) tenure_csv \<and>
   map YearsAtCompanyGroup (load_data tenure_csv)
     = [Some (tenure_labels ! 0), Some (tenure_labels ! 1), Some (tenure_labels ! 1),
        Some (tenure_labels ! 3), Some (tenure_labels ! 3)] \<and>
   (\<Sum>l\<leftarrow>tenure_labels. length (filter (\<lambda>r. YearsAtCompanyGroup r = Some l) (load_data tenure_csv)))
     = length tenure_csv"
proof -
  have a: "\<forall>c\<in>set tenure_csv. 0 \<le> YearsAtCompany c"
    by (simp add: tenure_csv_def employee_def)
  have b: "map YearsAtCompanyGroup (load_data tenure_csv)
     = [Some (tenure_labels ! 0), Some (tenure_labels ! 1), Some (tenure_labels ! 1),
        Some (tenure_labels ! 3), Some (tenure_labels ! 3)]"
    by (simp add: tenure_csv_def load_data_def derive_group employee_def tenure_group_cases)
  from tenure_buckets_partition [OF a] a b show ?thesis
    unfolding list_all_iff by blast
qed

section \<open>Cells of the heatmap without members\<close>

lemma cross_agg_keys: "level_key (cross_agg rows l b) = l" "tenure_key (cross_agg rows l b) = b"
  by (simp_all add: cross_agg_def Let_def)

lemma long_table_rows:
  "g \<in> set (joblevel_tenure_attrition rows) \<Longrightarrow> g = cross_agg rows (level_key g) (tenure_key g)"
  by (auto simp: joblevel_tenure_attrition_def cross_agg_keys)

lemma cross_agg_rate:
  "Attrition_Rate (cross_agg rows l b) =
     (if cross_group rows l b = [] then NaN
      else Num (real_of_int (sum_list [a. Some a \<leftarrow> map Attrition (cross_group rows l b)])
                  / real (length (cross_group rows l b)) * 100))"
  by (simp add: cross_agg_def Let_def np_div_def)

text \<open>
  Claim C8. A cell of the pivot table is NaN (unset) when no row of the table has its
  job level and its tenure label, and otherwise the number 100 times the sum of
  \<^verbatim>\<open>Attrition\<close> over the number of those rows; NaN is not the number 0, which a cell has
  when it has members and none of them left.
\<close>

theorem pivot_cell_unset_without_members:
  assumes "i < length (pivot_index (pivot_table rows))"
    and "j < length (pivot_columns (pivot_table rows))"
  shows "pivot_cells (pivot_table rows) ! i ! j =
     (let g = cross_group rows (pivot_index (pivot_table rows) ! i) (pivot_columns (pivot_table rows) ! j)
      in if g = [] then NaN
         else Num (real_of_int (sum_list [a. Some a \<leftarrow> map Attrition g]) / real (length g) * 100))
     \<and> NaN \<noteq> Num 0"
proof -
  let ?long = "joblevel_tenure_attrition rows"
  let ?idx = "sort (remdups (map level_key ?long))"
  let ?cols = "filter (\<lambda>b. b \<in> set (map tenure_key ?long)) tenure_labels"
  have pi: "pivot_index (pivot_table rows) = ?idx" and pc: "pivot_columns (pivot_table rows) = ?cols"
    by (simp_all add: pivot_table_def Let_def)
  let ?l = "?idx ! i" and ?b = "?cols ! j"
  have i: "i < length ?idx" and j: "j < length ?cols" using assms by (simp_all add: pi pc)
  have "?l \<in> set ?idx" using i by (rule nth_mem)
  then obtain g1 where g1: "g1 \<in> set ?long" "level_key g1 = ?l" by auto
  have "?b \<in> set ?cols" using j by (rule nth_mem)
  then have b: "?b \<in> set tenure_labels" by simp
  from g1 have "?l \<in> set (group_keys JobLevel rows)"
    by (auto simp: joblevel_tenure_attrition_def cross_agg_keys)
  with b have mem: "cross_agg rows ?l ?b \<in> set ?long"
    by (auto simp: joblevel_tenure_attrition_def)
  let ?P = "\<lambda>g. level_key g = ?l \<and> tenure_key g = ?b"
  have "find ?P ?long = Some (cross_agg rows ?l ?b)"
  proof (cases "find ?P ?long")
    case None
    then have "\<forall>x\<in>set ?long. \<not> ?P x" by (simp add: find_None_iff)
    with mem have "\<not> ?P (cross_agg rows ?l ?b)" by blast
    then show ?thesis by (simp add: cross_agg_keys)
  next
    case (Some g)
    then have "g \<in> set ?long" "?P g"
      by (auto simp: find_Some_iff)
    with long_table_rows [of g rows] Some show ?thesis by simp
  qed
  then have "pivot_cells (pivot_table rows) ! i ! j = Attrition_Rate (cross_agg rows ?l ?b)"
    using i j by (simp add: pivot_table_def Let_def)
  then show ?thesis
    by (simp add: cross_agg_rate pi pc Let_def)
qed

theorem pivot_cell_witness:
  "pivot_index (pivot_table level_table) = [1, 5] \<and>
   pivot_columns (pivot_table level_table) = tenure_labels \<and>
   cross_group level_table 1 (tenure_labels ! 3) = [] \<and>
   pivot_cells (pivot_table level_table) ! 0 ! 3 = NaN \<and>
   pivot_cells (pivot_table level_table) ! 1 ! 3 = Num 0"
proof -
  have pi: "pivot_index (pivot_table level_table) = [1, 5]" by code_simp
  have pc: "pivot_columns (pivot_table level_table) = tenure_labels" by code_simp
  have len: "length tenure_labels = 4" by (simp add: tenure_labels_def)
  have i: "0 < length (pivot_index (pivot_table level_table))" by (simp add: pi)
  have i1: "1 < length (pivot_index (pivot_table level_table))" by (simp add: pi)
  have j: "3 < length (pivot_columns (pivot_table level_table))" by (simp add: pc len)
  have e1: "cross_group level_table 1 (tenure_labels ! 3) = []" by code_simp
  have e2: "map Attrition (cross_group level_table 5 (tenure_labels ! 3)) = [Some 0]" by code_simp
  have c1: "pivot_cells (pivot_table level_table) ! 0 ! 3 = NaN"
    using pivot_cell_unset_without_members [OF i j] e1 by (simp add: pi pc)
  have "cross_group level_table 5 (tenure_labels ! 3) \<noteq> []" using e2 by auto
  then have c2: "pivot_cells (pivot_table level_table) ! 1 ! 3 = Num 0"
    using pivot_cell_unset_without_members [OF i1 j] e2 by (simp add: pi pc Let_def)
  from pi pc e1 c1 c2 show ?thesis by blast
qed

section \<open>Charts that read a column the table does not have\<close>

text \<open>
  Claim C9 at a table in which the only employee of job level 5 stayed and is the only
  one who did overtime. The selection of level 5 and the selection of overtime Yes both
  keep a row, and both charts raise KeyError for the column Left; without a selection the
  job level chart is drawn, with a NaN cell for level 5.
\<close>

theorem charts_raise_KeyError:
  "filter_level (Some 5) level_table \<noteq> [] \<and>
   joblevel_chart (Some 5) level_table = Inl (KeyError ''Left'') \<and>
   filter_overtime ''Yes'' level_table \<noteq> [] \<and>
   overtime_chart ''Yes'' level_table = Inl (KeyError ''Left'') \<and>
   joblevel_chart None level_table = Inr ([1, 5], [Some 50, Some 100], [Some 50, None])"
  by (simp add: level_table_def joblevel_chart_def joblevel_attrition_def value_counts_unstack_def
      filter_level_def filter_overtime_def overtime_chart_def overtime_attrition_def crosstab_def
      times100_def rename_columns_def get_column_def overtime_label_def eval_defs)

section \<open>The edges and bins of the distance chart\<close>

declare py_range.simps [simp del]

lemma py_range_step: "0 < s \<Longrightarrow> a < b \<Longrightarrow> py_range a b s = a # py_range (a + s) b s"
  by (subst py_range.simps) simp

lemma py_range_stop: "\<not> (0 < s \<and> a < b) \<Longrightarrow> py_range a b s = []"
  by (subst py_range.simps) simp

lemma py_range_bounds: "x \<in> set (py_range a b s) \<Longrightarrow> a \<le> x \<and> x < b"
proof (induction a b s rule: py_range.induct)
  case (1 start stop step)
  show ?case
  proof (cases "0 < step \<and> start < stop")
    case True
    with 1 show ?thesis by (auto simp: py_range_step)
  next
    case False
    with 1 show ?thesis by (simp add: py_range_stop)
  qed
qed

lemma py_range_nth: "i < length (py_range a b s) \<Longrightarrow> py_range a b s ! i = a + s * int i"
proof (induction a b s arbitrary: i rule: py_range.induct)
  case (1 start stop step)
  show ?case
  proof (cases "0 < step \<and> start < stop")
    case True
    then have eq: "py_range start stop step = start # py_range (start + step) stop step"
      by (simp add: py_range_step)
    show ?thesis
    proof (cases i)
      case 0
      then show ?thesis by (simp add: eq)
    next
      case (Suc j)
      with 1(2) eq have "j < length (py_range (start + step) stop step)" by simp
      with 1(1) True have "py_range (start + step) stop step ! j = start + step + step * int j"
        by simp
      then show ?thesis by (simp add: eq Suc algebra_simps)
    qed
  next
    case False
    with 1(2) show ?thesis by (simp add: py_range_stop)
  qed
qed

lemma py_range_last: "0 < s \<Longrightarrow> a < b \<Longrightarrow> b \<le> last (py_range a b s) + s"
proof (induction a b s rule: py_range.induct)
  case (1 start stop step)
  then have eq: "py_range start stop step = start # py_range (start + step) stop step"
    by (simp add: py_range_step)
  show ?case
  proof (cases "start + step < stop")
    case True
    then have "py_range (start + step) stop step \<noteq> []" using 1(2) by (simp add: py_range_step)
    with 1 True show ?thesis by (simp add: eq)
  next
    case False
    then have "py_range (start + step) stop step = []" by (simp add: py_range_stop)
    with False show ?thesis by (simp add: eq)
  qed
qed

lemma py_range_sorted: "sorted_wrt (<) (py_range a b s)"
proof (induction a b s rule: py_range.induct)
  case (1 start stop step)
  show ?case
  proof (cases "0 < step \<and> start < stop")
    case True
    have "start < x" if "x \<in> set (py_range (start + step) stop step)" for x
      using py_range_bounds [OF that] True by simp
    with 1 True show ?thesis by (simp add: py_range_step)
  next
    case False
    then show ?thesis by (simp add: py_range_stop)
  qed
qed

lemma py_int_mono: "py_int x \<le> py_int y" if "x \<le> y"
proof (cases "0 \<le> x")
  case True
  then show ?thesis using that by (simp add: py_int_def floor_mono)
next
  case x: False
  show ?thesis
  proof (cases "0 \<le> y")
    case True
    have "\<lceil>x\<rceil> \<le> 0" using x by (simp add: ceiling_le_zero)
    moreover have "0 \<le> \<lfloor>y\<rfloor>" using True by simp
    ultimately have "\<lceil>x\<rceil> \<le> \<lfloor>y\<rfloor>" by linarith
    then show ?thesis using x True by (simp add: py_int_def)
  next
    case False
    with x that show ?thesis by (simp add: py_int_def ceiling_mono)
  qed
qed

lemma min_le_max_dist: "min_dist rows \<le> max_dist rows"
proof (cases "rows = []")
  case True
  then show ?thesis by (simp add: min_dist_def max_dist_def)
next
  case False
  then obtain r where "r \<in> set rows" by (cases rows) auto
  then have "DistanceFromHome r \<in> set (map DistanceFromHome rows)" by simp
  then have "Min (set (map DistanceFromHome rows)) \<le> DistanceFromHome r"
    and "DistanceFromHome r \<le> Max (set (map DistanceFromHome rows))"
    by (simp_all del: set_map)
  with False show ?thesis by (simp add: min_dist_def max_dist_def del: set_map)
qed

lemma stepped_facts:
  shows stepped_ne: "stepped rows \<noteq> []"
    and stepped_hd: "hd (stepped rows) = py_int (min_dist rows)"
    and stepped_last: "py_int (max_dist rows) \<le> last (stepped rows)"
    and stepped_last_less: "last (stepped rows) < py_int (max_dist rows) + 7"
proof -
  let ?lo = "py_int (min_dist rows)" and ?hi = "py_int (max_dist rows)"
  have lt: "?lo < ?hi + 7" using py_int_mono [OF min_le_max_dist [of rows]] by simp
  then have eq: "stepped rows = ?lo # py_range (?lo + 7) (?hi + 7) 7"
    by (simp add: stepped_def py_range_step)
  then show ne: "stepped rows \<noteq> []" and "hd (stepped rows) = ?lo" by simp_all
  from py_range_last [of 7 ?lo "?hi + 7"] lt show "?hi \<le> last (stepped rows)"
    by (simp add: stepped_def)
  from ne have "last (stepped rows) \<in> set (py_range ?lo (?hi + 7) 7)"
    unfolding stepped_def by (rule last_in_set)
  from py_range_bounds [OF this] show "last (stepped rows) < ?hi + 7" by simp
qed

lemma bin_edges_eq:
  "bin_edges rows =
     Inr (if 0 < max_dist rows
          then (if real_of_int (last (stepped rows)) < max_dist rows
                then stepped rows @ [py_int (max_dist rows) + 1] else stepped rows)
          else [0, 1])"
  using stepped_ne [of rows]
  by (simp add: bin_edges_def Let_def stepped_def)

lemma edges_facts:
  assumes "bin_edges rows = Inr es"
  shows edges_ne: "es \<noteq> []"
    and edges_sorted: "sorted_wrt (<) es"
    and edges_cover_max: "max_dist rows \<le> real_of_int (last es)"
    and edges_hd: "0 < max_dist rows \<Longrightarrow> hd es = py_int (min_dist rows)"
proof -
  let ?mx = "max_dist rows" and ?st = "stepped rows"
  note st = stepped_ne [of rows] stepped_hd [of rows] stepped_last [of rows]
  have hi: "?mx < real_of_int (py_int ?mx) + 1" if "0 < ?mx"
    using that by (simp add: py_int_def)
  have shape: "es = (if 0 < ?mx then (if real_of_int (last ?st) < ?mx
                then ?st @ [py_int ?mx + 1] else ?st) else [0, 1])"
    using assms by (simp add: bin_edges_eq)
  show "es \<noteq> []" using st(1) by (simp add: shape)
  show "0 < ?mx \<Longrightarrow> hd es = py_int (min_dist rows)" using st(1,2) by (simp add: shape)
  show "?mx \<le> real_of_int (last es)"
    using hi st(1) by (auto simp: shape)
  have sst: "sorted_wrt (<) ?st" unfolding stepped_def by (rule py_range_sorted)
  have app: "sorted_wrt (<) (?st @ [py_int ?mx + 1])"
    if pos: "0 < ?mx" and lt: "real_of_int (last ?st) < ?mx"
  proof -
    have "real_of_int (last ?st) < real_of_int (py_int ?mx) + 1"
    proof -
      have "?mx \<le> real_of_int (py_int ?mx) + 1" using hi [OF pos] by simp
      with lt show ?thesis by linarith
    qed
    then have l: "last ?st < py_int ?mx + 1" by linarith
    have "x < py_int ?mx + 1" if "x \<in> set ?st" for x
    proof -
      from that obtain k where k: "k < length ?st" "x = ?st ! k" by (auto simp: in_set_conv_nth)
      have "x \<le> last ?st"
      proof (cases "k = length ?st - 1")
        case True
        then show ?thesis using k st(1) by (simp add: last_conv_nth)
      next
        case False
        with k have "k < length ?st - 1" by simp
        with sst k st(1) have "?st ! k < ?st ! (length ?st - 1)"
          by (simp add: sorted_wrt_iff_nth_less)
        then show ?thesis using k st(1) by (simp add: last_conv_nth)
      qed
      with l show ?thesis by simp
    qed
    with sst show ?thesis by (simp add: sorted_wrt_append)
  qed
  show "sorted_wrt (<) es" using sst app by (simp add: shape)
qed

lemma edges_steps:
  assumes "bin_edges rows = Inr es" and "0 < max_dist rows" and "i + 1 < length es"
  shows "es ! (i + 1) = es ! i + 7 \<or>
         (i + 2 = length es \<and> real_of_int (es ! i) < max_dist rows \<and>
          es ! (i + 1) = py_int (max_dist rows) + 1)"
proof -
  let ?mx = "max_dist rows" and ?st = "stepped rows"
  have shape: "es = (if real_of_int (last ?st) < ?mx then ?st @ [py_int ?mx + 1] else ?st)"
    using assms(1,2) by (simp add: bin_edges_eq)
  have inner: "?st ! (i + 1) = ?st ! i + 7" if "i + 1 < length ?st"
  proof -
    from that have "i < length ?st" by simp
    with that show ?thesis unfolding stepped_def by (simp add: py_range_nth)
  qed
  show ?thesis
  proof (cases "i + 1 < length ?st")
    case True
    then have "es ! (i + 1) = ?st ! (i + 1)" "es ! i = ?st ! i"
      by (simp_all add: shape nth_append)
    with inner [OF True] show ?thesis by simp
  next
    case False
    with assms(3) have ap: "es = ?st @ [py_int ?mx + 1]" and lt: "real_of_int (last ?st) < ?mx"
      by (auto simp: shape split: if_splits)
    from False assms(3) have i: "i + 1 = length ?st" by (simp add: ap)
    then have "es ! (i + 1) = py_int ?mx + 1" by (simp add: ap nth_append)
    moreover have "es ! i = last ?st"
    proof -
      from i have "i = length ?st - 1" by simp
      then show ?thesis using i stepped_ne [of rows]
        by (simp add: ap nth_append last_conv_nth)
    qed
    moreover have "i + 2 = length es" using i by (simp add: ap)
    ultimately show ?thesis using lt by simp
  qed
qed

lemma count_below:
  assumes "i \<le> length es"
    and "\<And>k. k < i \<Longrightarrow> real_of_int (es ! k) < d"
    and "\<And>k. i \<le> k \<Longrightarrow> k < length es \<Longrightarrow> d \<le> real_of_int (es ! k)"
  shows "length (filter (\<lambda>e. real_of_int e < d) es) = i"
proof -
  have "filter (\<lambda>e. real_of_int e < d) (take i es) = take i es"
    using assms(1,2) by (auto simp: filter_id_conv in_set_conv_nth)
  moreover have "filter (\<lambda>e. real_of_int e < d) (drop i es) = []"
  proof -
    have "\<not> real_of_int x < d" if "x \<in> set (drop i es)" for x
    proof -
      from that obtain k where "k < length es - i" "x = es ! (i + k)"
        by (auto simp: in_set_conv_nth)
      then have "i + k < length es" "x = es ! (i + k)" by simp_all
      with assms(3) [of "i + k"] have "d \<le> real_of_int x" by simp
      then show ?thesis by simp
    qed
    then show ?thesis by (simp add: filter_empty_conv)
  qed
  moreover have "es = take i es @ drop i es" by simp
  ultimately have "filter (\<lambda>e. real_of_int e < d) es = take i es"
    by (metis append_Nil2 filter_append)
  then show ?thesis using assms(1) by simp
qed

lemma searchsorted_left_int:
  "searchsorted (map (\<lambda>e. Fin (real_of_int e)) es) True d = length (filter (\<lambda>e. real_of_int e < d) es)"
  by (simp add: searchsorted_def filter_map o_def)

lemma distance_bin_upper:
  assumes "sorted_wrt (<) es" and "0 < i" and "i < length es"
    and "real_of_int (es ! (i - 1)) < d" and "d \<le> real_of_int (es ! i)"
  shows "distance_bin es d = Some i"
proof -
  have lo: "real_of_int (es ! k) < d" if "k < i" for k
  proof (cases "k = i - 1")
    case True
    with assms(4) show ?thesis by simp
  next
    case False
    with that have "k < i - 1" by simp
    with assms(1,3) have "es ! k < es ! (i - 1)" by (simp add: sorted_wrt_iff_nth_less)
    with assms(4) show ?thesis by linarith
  qed
  have hi: "d \<le> real_of_int (es ! k)" if "i \<le> k" "k < length es" for k
  proof (cases "k = i")
    case True
    with assms(5) show ?thesis by simp
  next
    case False
    with that have "i < k" by simp
    with assms(1) that have "es ! i < es ! k" by (simp add: sorted_wrt_iff_nth_less)
    with assms(5) show ?thesis by linarith
  qed
  have cnt: "length (filter (\<lambda>e. real_of_int e < d) es) = i"
    using assms(3) lo hi by (intro count_below) simp_all
  define bins where "bins = map (\<lambda>e. Fin (real_of_int e)) es"
  have ss: "searchsorted bins True d = i"
    unfolding bins_def by (simp add: searchsorted_left_int cnt)
  have "real_of_int (es ! 0) < d" using lo [of 0] assms(2) by simp
  then have nh: "hd bins \<noteq> Fin d" using assms(3) unfolding bins_def by (cases es) auto
  have len: "length bins = length es" by (simp add: bins_def)
  have "cut_ids bins True True d = Some i"
    using assms(2,3) by (simp add: cut_ids_def ss nh len Let_def)
  then show ?thesis by (simp add: distance_bin_def bins_def)
qed

lemma distance_bin_lowest:
  assumes "1 < length es"
  shows "distance_bin es (real_of_int (es ! 0)) = Some 1"
  using assms by (cases es) (simp_all add: distance_bin_def cut_ids_def Let_def)

lemma range_labels_nth:
  assumes "1 < length es" and "i < length es - 1"
  shows "range_labels es ! i = str_int (es ! i) @ en_dash @ str_int (es ! (i + 1) - 1)"
  using assms by (simp add: range_labels_def)

lemma length_range_labels: "1 < length es \<Longrightarrow> length (range_labels es) = length es - 1"
  by (simp add: range_labels_def)

lemma range_of_bin:
  assumes "1 < length es" and "distance_bin es d = Some i"
  shows "DistanceFromHomeRange es d = Some (range_labels es ! (i - 1))"
  using assms by (simp add: DistanceFromHomeRange_def pd_cut_def distance_bin_def)

lemma range_single: "length es \<le> 1 \<Longrightarrow> DistanceFromHomeRange es d = Some ''0-1''"
  by (simp add: DistanceFromHomeRange_def)

lemma distance_bin_cover:
  assumes "sorted_wrt (<) es" and "1 < length es"
    and "real_of_int (es ! 0) \<le> d" and "d \<le> real_of_int (last es)"
  shows "\<exists>i. 0 < i \<and> i < length es \<and> distance_bin es d = Some i \<and>
             (real_of_int (es ! (i - 1)) < d \<or> (i = 1 \<and> d = real_of_int (es ! 0))) \<and>
             d \<le> real_of_int (es ! i)"
proof (cases "d = real_of_int (es ! 0)")
  case True
  from assms(1,2) have "es ! 0 < es ! 1" by (simp add: sorted_wrt_iff_nth_less)
  with True have "d \<le> real_of_int (es ! 1)" by simp
  with True distance_bin_lowest [OF assms(2)] assms(2) show ?thesis
    by (intro exI [of _ 1]) simp
next
  case False
  with assms(3) have low: "real_of_int (es ! 0) < d" by simp
  define i where "i = (LEAST k. d \<le> real_of_int (es ! k))"
  have "es \<noteq> []" using assms(2) by auto
  then have "last es = es ! (length es - 1)" by (rule last_conv_nth)
  with assms(4) have ex: "d \<le> real_of_int (es ! (length es - 1))" by simp
  then have di: "d \<le> real_of_int (es ! i)" unfolding i_def by (rule LeastI)
  have ile: "i \<le> length es - 1" unfolding i_def using ex by (rule Least_le)
  have i0: "0 < i" using di low by (cases "i = 0") auto
  have "\<not> d \<le> real_of_int (es ! (i - 1))"
    using i0 unfolding i_def by (intro not_less_Least) simp
  then have prev: "real_of_int (es ! (i - 1)) < d" by simp
  have il: "i < length es" using ile assms(2) by simp
  from distance_bin_upper [OF assms(1) i0 il prev di] i0 il prev di show ?thesis by blast
qed

text \<open>
  Claim C10. Let \<open>edges\<close> be the bin edges of a table and \<open>i\<close> the position of an edge
  other than the first. A distance equal to that edge goes to the bin below it, the
  bin number \<open>i\<close>, whose label is the text of the edge before, an en dash and the text of
  this edge minus 1: the range that the label names ends below the value. The first
  edge goes to the first bin, whose label names a range that holds it.
\<close>

theorem boundary_value_in_lower_bucket:
  assumes "bin_edges filtered_df = Inr edges" and "0 < i" and "i < length edges"
  shows "distance_bin edges (real_of_int (edges ! i)) = Some i \<and>
         DistanceFromHomeRange edges (real_of_int (edges ! i))
           = Some (str_int (edges ! (i - 1)) @ en_dash @ str_int (edges ! i - 1)) \<and>
         edges ! (i - 1) \<le> edges ! i - 1 \<and> edges ! i - 1 < edges ! i \<and>
         distance_bin edges (real_of_int (edges ! 0)) = Some 1 \<and>
         DistanceFromHomeRange edges (real_of_int (edges ! 0))
           = Some (str_int (edges ! 0) @ en_dash @ str_int (edges ! 1 - 1)) \<and>
         edges ! 0 \<le> edges ! 1 - 1"
proof -
  have srt: "sorted_wrt (<) edges" using assms(1) by (rule edges_sorted)
  have len: "1 < length edges" using assms(2,3) by simp
  have prev: "edges ! (i - 1) < edges ! i"
    using srt assms(2,3) by (simp add: sorted_wrt_iff_nth_less)
  have first: "edges ! 0 < edges ! 1"
    using srt len by (simp add: sorted_wrt_iff_nth_less)
  have b: "distance_bin edges (real_of_int (edges ! i)) = Some i"
    using srt assms(2,3) prev by (intro distance_bin_upper) simp_all
  have l: "DistanceFromHomeRange edges (real_of_int (edges ! i))
           = Some (str_int (edges ! (i - 1)) @ en_dash @ str_int (edges ! i - 1))"
    using range_of_bin [OF len b] range_labels_nth [OF len, of "i - 1"] assms(2,3) by simp
  have b0: "distance_bin edges (real_of_int (edges ! 0)) = Some 1"
    using len by (rule distance_bin_lowest)
  have l0: "DistanceFromHomeRange edges (real_of_int (edges ! 0))
           = Some (str_int (edges ! 0) @ en_dash @ str_int (edges ! 1 - 1))"
    using range_of_bin [OF len b0] range_labels_nth [OF len, of 0] len by simp
  from b l b0 l0 prev first show ?thesis by simp
qed

theorem boundary_value_witness:
  "bin_edges commuters = Inr [0, 7, 14] \<and>
   DistanceFromHomeRange [0, 7, 14] 7 = Some (''0'' @ en_dash @ ''6'') \<and>
   DistanceFromHomeRange [0, 7, 14] 0 = Some (''0'' @ en_dash @ ''6'')"
proof -
  have e: "bin_edges commuters = Inr [0, 7, 14]" by code_simp
  have s: "str_int 0 = ''0''" "str_int 6 = ''6''" by code_simp+
  from boundary_value_in_lower_bucket [OF e, of 1] s e show ?thesis by simp
qed

section \<open>What the distance bucketer computes\<close>

declare str_nat.simps [simp del]

lemma sorted_le_last:
  fixes xs :: "int list"
  assumes "sorted_wrt (<) xs" and "k < length xs"
  shows "xs ! k \<le> last xs"
proof (cases "k = length xs - 1")
  case True
  with assms(2) show ?thesis by (cases "xs = []") (simp_all add: last_conv_nth)
next
  case False
  with assms(2) have "k < length xs - 1" by simp
  with assms have "xs ! k < xs ! (length xs - 1)" by (simp add: sorted_wrt_iff_nth_less)
  moreover have "xs \<noteq> []" using assms(2) by auto
  ultimately show ?thesis by (simp add: last_conv_nth)
qed

lemma py_int_pos: "0 < x \<Longrightarrow> real_of_int (py_int x) \<le> x \<and> x < real_of_int (py_int x) + 1"
  by (simp add: py_int_def)

lemma edges_below_max:
  assumes "bin_edges rows = Inr es" and "0 < max_dist rows" and "i + 1 < length es"
  shows "real_of_int (es ! i) < max_dist rows"
proof -
  let ?mx = "max_dist rows" and ?st = "stepped rows"
  have shape: "es = (if real_of_int (last ?st) < ?mx then ?st @ [py_int ?mx + 1] else ?st)"
    using assms(1,2) by (simp add: bin_edges_eq)
  have sst: "sorted_wrt (<) ?st" unfolding stepped_def by (rule py_range_sorted)
  show ?thesis
  proof (cases "real_of_int (last ?st) < ?mx")
    case True
    with assms(3) have i: "i < length ?st" by (simp add: shape)
    then have "es ! i = ?st ! i" using True by (simp add: shape nth_append)
    moreover have "?st ! i \<le> last ?st" using sst i by (rule sorted_le_last)
    ultimately show ?thesis using True by simp
  next
    case False
    then have es: "es = ?st" by (simp add: shape)
    with assms(3) have i: "i + 1 < length ?st" by simp
    then have "?st ! (i + 1) = ?st ! i + 7" unfolding stepped_def by (simp add: py_range_nth)
    moreover have "?st ! (i + 1) \<in> set (py_range (py_int (min_dist rows)) (py_int ?mx + 7) 7)"
      using i unfolding stepped_def by (intro nth_mem)
    then have "?st ! (i + 1) < py_int ?mx + 7" by (simp add: py_range_bounds)
    ultimately have "?st ! i < py_int ?mx" by simp
    then have "real_of_int (?st ! i) < real_of_int (py_int ?mx)" by simp
    with py_int_pos [OF assms(2)] show ?thesis by (simp add: es)
  qed
qed

lemma single_edge:
  assumes "bin_edges rows = Inr es" and "0 < max_dist rows" and "length es = 1"
  shows "min_dist rows = max_dist rows"
proof -
  let ?mx = "max_dist rows" and ?mn = "min_dist rows" and ?st = "stepped rows"
  have shape: "es = (if real_of_int (last ?st) < ?mx then ?st @ [py_int ?mx + 1] else ?st)"
    using assms(1,2) by (simp add: bin_edges_eq)
  have ne: "?st \<noteq> []" by (rule stepped_ne)
  have nlt: "\<not> real_of_int (last ?st) < ?mx"
  proof
    assume "real_of_int (last ?st) < ?mx"
    then have "length es = length ?st + 1" by (simp add: shape)
    with assms(3) ne show False by simp
  qed
  then have es: "es = ?st" by (simp add: shape)
  with assms(3) have "last ?st = hd ?st" by (cases ?st) simp_all
  then have "last ?st = py_int ?mn" by (simp add: stepped_hd)
  with nlt have le: "?mx \<le> real_of_int (py_int ?mn)" by simp
  have mm: "?mn \<le> ?mx" by (rule min_le_max_dist)
  show ?thesis
  proof (cases "0 \<le> ?mn")
    case True
    then have "real_of_int (py_int ?mn) \<le> ?mn" by (simp add: py_int_def)
    with le mm show ?thesis by linarith
  next
    case False
    then have "py_int ?mn \<le> 0" by (simp add: py_int_def ceiling_le_zero)
    then have "real_of_int (py_int ?mn) \<le> 0" by simp
    with le assms(2) show ?thesis by linarith
  qed
qed

lemma fallback_labels: "range_labels [0, 1] = [''0'' @ en_dash @ ''0'']"
  by code_simp

lemma edges_cover:
  assumes "bin_edges rows = Inr es" and "0 < max_dist rows" and "1 < length es"
    and "0 \<le> min_dist rows" and "min_dist rows \<le> d" and "d \<le> max_dist rows"
  shows "\<exists>i. 0 < i \<and> i < length es \<and>
             DistanceFromHomeRange es d = Some (range_labels es ! (i - 1)) \<and>
             (real_of_int (es ! (i - 1)) < d \<or> (i = 1 \<and> d = real_of_int (es ! 0))) \<and>
             d \<le> real_of_int (es ! i)"
proof -
  have srt: "sorted_wrt (<) es" using assms(1) by (rule edges_sorted)
  have "es \<noteq> []" using assms(3) by auto
  then have "es ! 0 = hd es" by (simp add: hd_conv_nth)
  also have "\<dots> = py_int (min_dist rows)" using assms(1,2) by (rule edges_hd)
  finally have "real_of_int (es ! 0) \<le> min_dist rows" using assms(4) by (simp add: py_int_def)
  with assms(5) have lo: "real_of_int (es ! 0) \<le> d" by simp
  have "max_dist rows \<le> real_of_int (last es)" using assms(1) by (rule edges_cover_max)
  with assms(6) have hi: "d \<le> real_of_int (last es)" by simp
  from distance_bin_cover [OF srt assms(3) lo hi] obtain i where
    i: "0 < i \<and> i < length es \<and> distance_bin es d = Some i \<and>
             (real_of_int (es ! (i - 1)) < d \<or> (i = 1 \<and> d = real_of_int (es ! 0))) \<and>
             d \<le> real_of_int (es ! i)" ..
  then have "distance_bin es d = Some i" by simp
  from range_of_bin [OF assms(3) this]
  have "DistanceFromHomeRange es d = Some (range_labels es ! (i - 1))" .
  with i show ?thesis by (intro exI [of _ i]) simp
qed

lemma stepped_eq:
  "stepped rows = map (\<lambda>k. py_int (min_dist rows) + 7 * int k) [0..<length (stepped rows)]"
  by (rule nth_equalityI) (simp_all add: stepped_def py_range_nth)

lemma stepped_exact:
  fixes rows
  defines "lo \<equiv> py_int (min_dist rows)" and "hi \<equiv> py_int (max_dist rows)"
    and "n \<equiv> length (stepped rows)"
  shows "0 < n" and "\<forall>k. k + 1 < n \<longrightarrow> lo + 7 * int k < hi" and "hi \<le> lo + 7 * int (n - 1)"
    and "last (stepped rows) = lo + 7 * int (n - 1)"
proof -
  show n: "0 < n" using stepped_ne [of rows] by (simp add: n_def)
  have nth: "stepped rows ! k = lo + 7 * int k" if "k < n" for k
    using that unfolding n_def lo_def stepped_def by (simp add: py_range_nth)
  show l: "last (stepped rows) = lo + 7 * int (n - 1)"
    using n stepped_ne [of rows] nth [of "n - 1"] by (simp add: last_conv_nth n_def)
  show "hi \<le> lo + 7 * int (n - 1)" using stepped_last [of rows] by (simp add: l hi_def)
  show "\<forall>k. k + 1 < n \<longrightarrow> lo + 7 * int k < hi"
  proof (intro allI impI)
    fix k assume k: "k + 1 < n"
    then have "stepped rows ! (k + 1) \<in> set (py_range lo (hi + 7) 7)"
      unfolding n_def stepped_def lo_def hi_def by (intro nth_mem)
    then have "stepped rows ! (k + 1) < hi + 7" by (simp add: py_range_bounds)
    with nth [OF k] show "lo + 7 * int k < hi" by simp
  qed
qed

lemma edges_exact:
  assumes "bin_edges rows = Inr es" and "0 < max_dist rows"
  shows "\<exists>n. 0 < n \<and>
           (\<forall>k. k + 1 < n \<longrightarrow> py_int (min_dist rows) + 7 * int k < py_int (max_dist rows)) \<and>
           py_int (max_dist rows) \<le> py_int (min_dist rows) + 7 * int (n - 1) \<and>
           es = map (\<lambda>k. py_int (min_dist rows) + 7 * int k) [0..<n]
                @ (if real_of_int (py_int (min_dist rows) + 7 * int (n - 1)) < max_dist rows
                   then [py_int (max_dist rows) + 1] else [])"
proof -
  let ?n = "length (stepped rows)"
  have "es = stepped rows @ (if real_of_int (last (stepped rows)) < max_dist rows
                             then [py_int (max_dist rows) + 1] else [])"
    using assms by (auto simp: bin_edges_eq)
  then have "es = map (\<lambda>k. py_int (min_dist rows) + 7 * int k) [0..<?n]
                @ (if real_of_int (py_int (min_dist rows) + 7 * int (?n - 1)) < max_dist rows
                   then [py_int (max_dist rows) + 1] else [])"
    using stepped_eq [of rows] by (simp only: stepped_exact(4))
  with stepped_exact(1-3) [of rows] show ?thesis by (intro exI [of _ ?n]) simp
qed

text \<open>
  Claim C5, as the script has it. The bin edges are always computed. For a table with
  rows and a positive greatest distance, let \<open>lo\<close> and \<open>hi\<close> be \<^verbatim>\<open>int\<close> of the least and of
  the greatest distance. The edges are \<open>lo\<close>, \<open>lo + 7\<close>, \<open>lo + 14\<close> and so on up to the
  first of them that is not below \<open>hi\<close>, followed by \<open>hi + 1\<close> when that last one is
  still below the greatest distance. So the first edge is \<open>lo\<close> (the floor of the least
  distance when that is not negative), every edge but the last is below the greatest
  distance, and the last edge is at least the greatest distance (it need not exceed
  it). With two edges or more there is one label for each pair of neighbouring edges,
  the text of the lower edge, an en dash and the text of the upper edge minus 1, and
  every distance from the least to the greatest (the least not negative) gets the label
  of a bin whose lower edge is below it, or equal to it for the first bin, and whose
  upper edge is not below it. With a single edge all distances are equal and every row
  gets the label \<^verbatim>\<open>0-1\<close>. For a table without rows or with a greatest distance that is
  not positive, the edges are 0 and 1 and the one label is \<^verbatim>\<open>0\<close>, an en dash, \<^verbatim>\<open>0\<close>.
\<close>

theorem distance_bucketer:
  "case bin_edges rows of
     Inl e \<Rightarrow> False
   | Inr es \<Rightarrow>
      (if rows \<noteq> [] \<and> 0 < max_dist rows
       then (\<exists>n. 0 < n \<and>
              (\<forall>k. k + 1 < n \<longrightarrow> py_int (min_dist rows) + 7 * int k < py_int (max_dist rows)) \<and>
              py_int (max_dist rows) \<le> py_int (min_dist rows) + 7 * int (n - 1) \<and>
              es = map (\<lambda>k. py_int (min_dist rows) + 7 * int k) [0..<n]
                   @ (if real_of_int (py_int (min_dist rows) + 7 * int (n - 1)) < max_dist rows
                      then [py_int (max_dist rows) + 1] else [])) \<and>
           hd es = py_int (min_dist rows) \<and>
           (0 \<le> min_dist rows \<longrightarrow> hd es = \<lfloor>min_dist rows\<rfloor>) \<and>
           (\<forall>i. i + 1 < length es \<longrightarrow>
               real_of_int (es ! i) < max_dist rows \<and>
               (es ! (i + 1) = es ! i + 7 \<or>
                (i + 2 = length es \<and> es ! (i + 1) = py_int (max_dist rows) + 1))) \<and>
           max_dist rows \<le> real_of_int (last es) \<and>
           (1 < length es \<longrightarrow>
               length (range_labels es) = length es - 1 \<and>
               (\<forall>i<length es - 1.
                   range_labels es ! i = str_int (es ! i) @ en_dash @ str_int (es ! (i + 1) - 1)) \<and>
               (0 \<le> min_dist rows \<longrightarrow>
                  (\<forall>d. min_dist rows \<le> d \<and> d \<le> max_dist rows \<longrightarrow>
                     (\<exists>i. 0 < i \<and> i < length es \<and>
                          DistanceFromHomeRange es d = Some (range_labels es ! (i - 1)) \<and>
                          (real_of_int (es ! (i - 1)) < d \<or> (i = 1 \<and> d = real_of_int (es ! 0))) \<and>
                          d \<le> real_of_int (es ! i))))) \<and>
           (length es = 1 \<longrightarrow>
               min_dist rows = max_dist rows \<and> range_labels es = [''0-1''] \<and>
               (\<forall>d. DistanceFromHomeRange es d = Some ''0-1''))
       else es = [0, 1] \<and> range_labels es = [''0'' @ en_dash @ ''0''])"
proof -
  obtain es where es: "bin_edges rows = Inr es" by (simp add: bin_edges_eq)
  have "if rows \<noteq> [] \<and> 0 < max_dist rows
       then (\<exists>n. 0 < n \<and>
              (\<forall>k. k + 1 < n \<longrightarrow> py_int (min_dist rows) + 7 * int k < py_int (max_dist rows)) \<and>
              py_int (max_dist rows) \<le> py_int (min_dist rows) + 7 * int (n - 1) \<and>
              es = map (\<lambda>k. py_int (min_dist rows) + 7 * int k) [0..<n]
                   @ (if real_of_int (py_int (min_dist rows) + 7 * int (n - 1)) < max_dist rows
                      then [py_int (max_dist rows) + 1] else [])) \<and>
           hd es = py_int (min_dist rows) \<and>
           (0 \<le> min_dist rows \<longrightarrow> hd es = \<lfloor>min_dist rows\<rfloor>) \<and>
           (\<forall>i. i + 1 < length es \<longrightarrow>
               real_of_int (es ! i) < max_dist rows \<and>
               (es ! (i + 1) = es ! i + 7 \<or>
                (i + 2 = length es \<and> es ! (i + 1) = py_int (max_dist rows) + 1))) \<and>
           max_dist rows \<le> real_of_int (last es) \<and>
           (1 < length es \<longrightarrow>
               length (range_labels es) = length es - 1 \<and>
               (\<forall>i<length es - 1.
                   range_labels es ! i = str_int (es ! i) @ en_dash @ str_int (es ! (i + 1) - 1)) \<and>
               (0 \<le> min_dist rows \<longrightarrow>
                  (\<forall>d. min_dist rows \<le> d \<and> d \<le> max_dist rows \<longrightarrow>
                     (\<exists>i. 0 < i \<and> i < length es \<and>
                          DistanceFromHomeRange es d = Some (range_labels es ! (i - 1)) \<and>
                          (real_of_int (es ! (i - 1)) < d \<or> (i = 1 \<and> d = real_of_int (es ! 0))) \<and>
                          d \<le> real_of_int (es ! i))))) \<and>
           (length es = 1 \<longrightarrow>
               min_dist rows = max_dist rows \<and> range_labels es = [''0-1''] \<and>
               (\<forall>d. DistanceFromHomeRange es d = Some ''0-1''))
       else es = [0, 1] \<and> range_labels es = [''0'' @ en_dash @ ''0'']"
  proof (cases "rows \<noteq> [] \<and> 0 < max_dist rows")
    case True
    then have pos: "0 < max_dist rows" by simp
    note x = edges_exact [OF es pos]
    have a: "hd es = py_int (min_dist rows)" using es pos by (rule edges_hd)
    have b: "0 \<le> min_dist rows \<longrightarrow> hd es = \<lfloor>min_dist rows\<rfloor>" using a by (simp add: py_int_def)
    have c: "\<forall>i. i + 1 < length es \<longrightarrow>
               real_of_int (es ! i) < max_dist rows \<and>
               (es ! (i + 1) = es ! i + 7 \<or>
                (i + 2 = length es \<and> es ! (i + 1) = py_int (max_dist rows) + 1))"
    proof (intro allI impI)
      fix i assume i: "i + 1 < length es"
      from edges_below_max [OF es pos i] edges_steps [OF es pos i]
      show "real_of_int (es ! i) < max_dist rows \<and>
               (es ! (i + 1) = es ! i + 7 \<or>
                (i + 2 = length es \<and> es ! (i + 1) = py_int (max_dist rows) + 1))"
        by auto
    qed
    have d: "max_dist rows \<le> real_of_int (last es)" using es by (rule edges_cover_max)
    have e: "1 < length es \<longrightarrow>
               length (range_labels es) = length es - 1 \<and>
               (\<forall>i<length es - 1.
                   range_labels es ! i = str_int (es ! i) @ en_dash @ str_int (es ! (i + 1) - 1)) \<and>
               (0 \<le> min_dist rows \<longrightarrow>
                  (\<forall>d. min_dist rows \<le> d \<and> d \<le> max_dist rows \<longrightarrow>
                     (\<exists>i. 0 < i \<and> i < length es \<and>
                          DistanceFromHomeRange es d = Some (range_labels es ! (i - 1)) \<and>
                          (real_of_int (es ! (i - 1)) < d \<or> (i = 1 \<and> d = real_of_int (es ! 0))) \<and>
                          d \<le> real_of_int (es ! i))))"
    proof (intro impI conjI allI)
      assume len: "1 < length es"
      show "length (range_labels es) = length es - 1" using len by (rule length_range_labels)
      show "range_labels es ! i = str_int (es ! i) @ en_dash @ str_int (es ! (i + 1) - 1)"
        if "i < length es - 1" for i using len that by (rule range_labels_nth)
      show "\<exists>i. 0 < i \<and> i < length es \<and>
                          DistanceFromHomeRange es d = Some (range_labels es ! (i - 1)) \<and>
                          (real_of_int (es ! (i - 1)) < d \<or> (i = 1 \<and> d = real_of_int (es ! 0))) \<and>
                          d \<le> real_of_int (es ! i)"
        if "0 \<le> min_dist rows" "min_dist rows \<le> d \<and> d \<le> max_dist rows" for d
        using that(2) by (intro edges_cover [OF es pos len that(1)]) simp_all
    qed
    have f: "length es = 1 \<longrightarrow>
               min_dist rows = max_dist rows \<and> range_labels es = [''0-1''] \<and>
               (\<forall>d. DistanceFromHomeRange es d = Some ''0-1'')"
      using single_edge [OF es pos] by (simp add: range_labels_def range_single)
    note body = conjI [OF x conjI [OF a conjI [OF b conjI [OF c conjI [OF d conjI [OF e f]]]]]]
    show ?thesis by (simp only: if_P [OF True]) (rule body)
  next
    case False
    then have "\<not> 0 < max_dist rows" by (auto simp: max_dist_def)
    with es have "es = [0, 1]" by (simp add: bin_edges_eq)
    with fallback_labels have fb: "es = [0, 1] \<and> range_labels es = [''0'' @ en_dash @ ''0'']"
      by simp
    show ?thesis by (simp only: if_not_P [OF False]) (rule fb)
  qed
  then show ?thesis by (simp only: es sum.case)
qed

theorem distance_bucketer_witness:
  "far_commuters \<noteq> [] \<and> 0 < max_dist far_commuters \<and>
   py_int (min_dist far_commuters) = 1 \<and> py_int (max_dist far_commuters) = 29 \<and>
   bin_edges far_commuters = Inr [1, 8, 15, 22, 29] \<and>
   max_dist far_commuters \<le> real_of_int (last [1, 8, 15, 22, 29]) \<and>
   hd [1, 8, 15, 22, 29] = py_int (min_dist far_commuters) \<and>
   length (range_labels [1, 8, 15, 22, 29]) = 4"
proof -
  have c: "far_commuters \<noteq> [] \<and> 0 < max_dist far_commuters" by code_simp
  have e: "bin_edges far_commuters = Inr [1, 8, 15, 22, 29]" by code_simp
  have lo: "py_int (min_dist far_commuters) = 1" and hi: "py_int (max_dist far_commuters) = 29"
    by code_simp+
  note body = distance_bucketer [of far_commuters, unfolded e sum.case if_P [OF c]]
  note h = body [THEN conjunct2, THEN conjunct1]
  note m = body [THEN conjunct2, THEN conjunct2, THEN conjunct2, THEN conjunct2, THEN conjunct1]
  note l = body [THEN conjunct2, THEN conjunct2, THEN conjunct2, THEN conjunct2, THEN conjunct2,
      THEN conjunct1, rule_format, THEN conjunct1]
  have l4: "length (range_labels [1, 8, 15, 22, 29]) = 4" using l by simp
  show ?thesis using c e lo hi h m l4 by simp
qed

text \<open>
  With the distances 0 and 7 the edges are 0 and 7: the last edge equals the greatest
  distance, and the distance 7 gets the label that names 0 to 6. A table without rows
  gets the edges 0 and 1 and the label \<^verbatim>\<open>0\<close>, en dash, \<^verbatim>\<open>0\<close>, not \<^verbatim>\<open>0-1\<close>.
\<close>

theorem distance_bucketer_counterexample:
  "max_dist week_commuters = 7 \<and> bin_edges week_commuters = Inr [0, 7] \<and>
   \<not> max_dist week_commuters < real_of_int (last [0, 7]) \<and>
   DistanceFromHomeRange [0, 7] 7 = Some (''0'' @ en_dash @ ''6'') \<and>
   bin_edges [] = Inr [0, 1] \<and>
   range_labels [0, 1] = [''0'' @ en_dash @ ''0''] \<and>
   range_labels [0, 1] \<noteq> [''0-1'']"
  by code_simp

section \<open>Small groups of the distance chart\<close>

lemma count_summary_agg:
  "count (summary_agg edges fd b k)
     = length (filter (\<lambda>r. Attrition r \<noteq> None) (summary_group edges fd b k))"
  by (simp add: summary_agg_def Let_def filter_map o_def)

lemma keys_summary_agg:
  "range_key (summary_agg edges fd b k) = b" "role_key (summary_agg edges fd b k) = k"
  by (simp_all add: summary_agg_def Let_def)

lemma summary_eq:
  assumes "bin_edges (filter_department sel rows) = Inr edges"
  shows "summary sel rows =
     Inr (filter (\<lambda>g. count g > 7)
            (concat (map (\<lambda>b. map (summary_agg edges (filter_department sel rows) b)
                                (group_keys JobRole (filter_department sel rows)))
                       (range_labels edges))))"
  using assms by (simp add: summary_def Let_def)

lemma summary_member:
  assumes "b \<in> set labels" and "k \<in> set keys"
  shows "(\<exists>g\<in>set (filter (\<lambda>g. count g > 7)
                      (concat (map (\<lambda>b. map (summary_agg edges fd b) keys) labels))).
            range_key g = b \<and> role_key g = k)
         = (7 < count (summary_agg edges fd b k))"
proof
  assume "\<exists>g\<in>set (filter (\<lambda>g. count g > 7)
                      (concat (map (\<lambda>b. map (summary_agg edges fd b) keys) labels))).
            range_key g = b \<and> role_key g = k"
  then obtain g b' k' where g: "g = summary_agg edges fd b' k'" "7 < count g"
      "range_key g = b" "role_key g = k"
    by auto
  then have "b' = b" "k' = k" by (simp_all add: keys_summary_agg)
  with g show "7 < count (summary_agg edges fd b k)" by simp
next
  assume c: "7 < count (summary_agg edges fd b k)"
  have "summary_agg edges fd b k \<in> set (concat (map (\<lambda>b. map (summary_agg edges fd b) keys) labels))"
    using assms by auto
  with c show "\<exists>g\<in>set (filter (\<lambda>g. count g > 7)
                      (concat (map (\<lambda>b. map (summary_agg edges fd b) keys) labels))).
            range_key g = b \<and> role_key g = k"
    by (intro bexI [of _ "summary_agg edges fd b k"]) (simp_all add: keys_summary_agg)
qed

text \<open>
  Claim C4, as the script has it. The summary is always computed. A pair of a range
  label and a job role of the filtered table has a row in it exactly when 8 or more of
  the rows of the pair have an \<^verbatim>\<open>Attrition\<close> cell that is not NaN: \<^verbatim>\<open>count\<close> counts those
  cells. When no row of the pair has a NaN cell, the pair is in the summary exactly
  when it has 8 or more members, so a pair with exactly 7 members is left out and a
  pair with exactly 8 is kept.
\<close>

theorem small_groups_suppressed:
  assumes "bin_edges (filter_department sel rows) = Inr edges"
    and "b \<in> set (range_labels edges)"
    and "k \<in> set (group_keys JobRole (filter_department sel rows))"
  shows "\<exists>out. summary sel rows = Inr out \<and>
           ((\<exists>g\<in>set out. range_key g = b \<and> role_key g = k)
              = (8 \<le> length (filter (\<lambda>r. Attrition r \<noteq> None)
                               (summary_group edges (filter_department sel rows) b k)))) \<and>
           ((\<forall>r\<in>set (summary_group edges (filter_department sel rows) b k). Attrition r \<noteq> None) \<longrightarrow>
              (\<exists>g\<in>set out. range_key g = b \<and> role_key g = k)
              = (8 \<le> length (summary_group edges (filter_department sel rows) b k)))"
proof -
  let ?fd = "filter_department sel rows"
  let ?out = "filter (\<lambda>g. count g > 7)
            (concat (map (\<lambda>b. map (summary_agg edges ?fd b) (group_keys JobRole ?fd))
                       (range_labels edges)))"
  have s: "summary sel rows = Inr ?out" using assms(1) by (rule summary_eq)
  have m: "(\<exists>g\<in>set ?out. range_key g = b \<and> role_key g = k)
       = (8 \<le> length (filter (\<lambda>r. Attrition r \<noteq> None) (summary_group edges ?fd b k)))"
    using summary_member [OF assms(2,3), of edges ?fd]
    by (simp only: count_summary_agg) arith
  have a: "(\<forall>r\<in>set (summary_group edges ?fd b k). Attrition r \<noteq> None) \<longrightarrow>
       (\<exists>g\<in>set ?out. range_key g = b \<and> role_key g = k)
       = (8 \<le> length (summary_group edges ?fd b k))"
  proof
    assume "\<forall>r\<in>set (summary_group edges ?fd b k). Attrition r \<noteq> None"
    then have "filter (\<lambda>r. Attrition r \<noteq> None) (summary_group edges ?fd b k)
             = summary_group edges ?fd b k" by (simp add: filter_id_conv)
    with m show "(\<exists>g\<in>set ?out. range_key g = b \<and> role_key g = k)
       = (8 \<le> length (summary_group edges ?fd b k))" by simp
  qed
  show ?thesis by (rule exI [of _ ?out]) (rule conjI [OF s conjI [OF m a]])
qed

theorem small_groups_witness:
  "bin_edges (filter_department ''All'' office) = Inr [3, 10] \<and>
   range_labels [3, 10] = [''3'' @ en_dash @ ''9''] \<and>
   group_keys JobRole (filter_department ''All'' office) = [''Clerk'', ''Manager''] \<and>
   length (summary_group [3, 10] office (''3'' @ en_dash @ ''9'') ''Clerk'') = 8 \<and>
   length (summary_group [3, 10] office (''3'' @ en_dash @ ''9'') ''Manager'') = 7 \<and>
   summary ''All'' office
     = Inr [\<lparr>range_key = ''3'' @ en_dash @ ''9'', role_key = ''Clerk'', count = 8,
             summary_left = Some 0\<rparr>]"
proof -
  have e: "bin_edges (filter_department ''All'' office) = Inr [3, 10]" by code_simp
  have l: "range_labels [3, 10] = [''3'' @ en_dash @ ''9'']" by code_simp
  have k: "group_keys JobRole (filter_department ''All'' office) = [''Clerk'', ''Manager'']"
    by code_simp
  have b: "''3'' @ en_dash @ ''9'' \<in> set (range_labels [3, 10])" by (simp add: l)
  have kc: "''Clerk'' \<in> set (group_keys JobRole (filter_department ''All'' office))"
    by (simp add: k)
  have n8: "length (summary_group [3, 10] office (''3'' @ en_dash @ ''9'') ''Clerk'') = 8"
    by code_simp
  have n7: "length (summary_group [3, 10] office (''3'' @ en_dash @ ''9'') ''Manager'') = 7"
    by code_simp
  have s: "summary ''All'' office
     = Inr [\<lparr>range_key = ''3'' @ en_dash @ ''9'', role_key = ''Clerk'', count = 8,
             summary_left = Some 0\<rparr>]" by code_simp
  from small_groups_suppressed [OF e b kc] have "\<exists>out. summary ''All'' office = Inr out" by blast
  with e l k n8 n7 s show ?thesis by simp
qed

text \<open>
  Eight clerks at the distance 3, seven with the label No and one with the label Maybe:
  the pair has 8 members and is left out of the summary.
\<close>

theorem small_groups_counterexample:
  "bin_edges (filter_department ''All'' office_maybe) = Inr [3, 10] \<and>
   length (summary_group [3, 10] office_maybe (''3'' @ en_dash @ ''9'') ''Clerk'') = 8 \<and>
   summary ''All'' office_maybe = Inr []"
  by code_simp

section \<open>The grouped rates add up to 100\<close>

lemma set_jobrole_attr:
  "jobrole_attr rows tbl \<Longrightarrow> set tbl = agg_JobRole rows ` JobRole ` set rows"
proof -
  assume "jobrole_attr rows tbl"
  then have "mset tbl = mset (groupby_JobRole rows)"
    by (simp add: jobrole_attr_def sort_values_desc_def)
  then have "set tbl = set (groupby_JobRole rows)" by (rule mset_eq_setD)
  then show ?thesis by (simp add: groupby_JobRole_def set_group_keys)
qed

lemma role_agg_JobRole: "role (agg_JobRole rows k) = k"
  by (simp add: agg_JobRole_def Let_def)

lemma count_three:
  "length (filter (\<lambda>a. a = Some (1::int)) x) + length (filter (\<lambda>a. a = Some 0) x)
     + length (filter (\<lambda>a. a \<noteq> Some 1 \<and> a \<noteq> Some 0) x) = length x"
  by (induction x) auto

lemma rate_sum:
  "x \<noteq> [] \<Longrightarrow> rate_lambda 1 x + rate_lambda 0 x
     = 100 * real (length (filter (\<lambda>a. a = Some 1 \<or> a = Some 0) x)) / real (length x)"
proof -
  have "length (filter (\<lambda>a. a = Some (1::int) \<or> a = Some 0) x)
      = length (filter (\<lambda>a. a = Some 1) x) + length (filter (\<lambda>a. a = Some 0) x)"
    by (induction x) auto
  then show ?thesis
    by (simp add: rate_lambda_def add_divide_distrib distrib_left)
qed

text \<open>
  Claim C1, as the script has it. A group of a job role table has at least one row.
  Its left rate is 100 times the number of its rows with \<^verbatim>\<open>Attrition\<close> 1 over the
  number of its rows, its stayed rate the same with \<^verbatim>\<open>Attrition\<close> 0. When every row of
  the group has \<^verbatim>\<open>Attrition\<close> 1 or 0 (its label was Yes or No, so the cell is not NaN),
  the two rates add up to 100, so also within 1e-9 of it.
\<close>

theorem rates_sum_to_100:
  assumes "jobrole_attr rows tbl" and "g \<in> set tbl"
  shows "0 < count_JobRole g \<and>
         count_JobRole g = length (filter (\<lambda>r. JobRole r = role g) rows) \<and>
         attrition_left g = 100 * real (length (filter (\<lambda>r. JobRole r = role g \<and> Attrition r = Some 1) rows)) / real (count_JobRole g) \<and>
         attrition_stay g = 100 * real (length (filter (\<lambda>r. JobRole r = role g \<and> Attrition r = Some 0) rows)) / real (count_JobRole g) \<and>
         ((\<forall>r\<in>set rows. JobRole r = role g \<longrightarrow> Attrition r = Some 1 \<or> Attrition r = Some 0) \<longrightarrow>
            attrition_left g + attrition_stay g = 100 \<and>
            \<bar>attrition_left g + attrition_stay g - 100\<bar> \<le> 1 / 10 ^ 9)"
proof -
  from assms obtain r0 where r0: "r0 \<in> set rows" and g: "g = agg_JobRole rows (JobRole r0)"
    by (auto simp: set_jobrole_attr)
  define k where "k = JobRole r0"
  define x where "x = map Attrition (filter (\<lambda>r. JobRole r = k) rows)"
  have rk: "role g = k" by (simp add: g k_def role_agg_JobRole)
  have mem: "r0 \<in> set (filter (\<lambda>r. JobRole r = k) rows)" using r0 by (simp add: k_def)
  then have ne: "x \<noteq> []" unfolding x_def by (auto simp: filter_empty_conv)
  have cnt: "count_JobRole g = length x" by (simp add: g agg_JobRole_def Let_def x_def k_def)
  have l: "attrition_left g = rate_lambda 1 x" and s: "attrition_stay g = rate_lambda 0 x"
    by (simp_all add: g agg_JobRole_def Let_def x_def k_def)
  have f1: "length (filter (\<lambda>a. a = Some v) x) = length (filter (\<lambda>r. JobRole r = k \<and> Attrition r = Some v) rows)" for v
    by (simp add: x_def filter_map o_def conj_commute)
  have sum: "rate_lambda 1 x + rate_lambda 0 x = 100"
    if "\<forall>r\<in>set rows. JobRole r = role g \<longrightarrow> Attrition r = Some 1 \<or> Attrition r = Some 0"
  proof -
    have "\<forall>a\<in>set x. a = Some 1 \<or> a = Some 0" using that rk by (auto simp: x_def)
    then have "filter (\<lambda>a. a = Some 1 \<or> a = Some 0) x = x" by (simp add: filter_id_conv)
    then show ?thesis using rate_sum [OF ne] ne by simp
  qed
  have p1: "0 < count_JobRole g" using ne by (simp add: cnt)
  have p2: "count_JobRole g = length (filter (\<lambda>r. JobRole r = role g) rows)"
    by (simp add: cnt rk x_def)
  have p3: "attrition_left g = 100 * real (length (filter (\<lambda>r. JobRole r = role g \<and> Attrition r = Some 1) rows)) / real (count_JobRole g)"
    by (simp add: cnt l rk f1 rate_lambda_def)
  have p4: "attrition_stay g = 100 * real (length (filter (\<lambda>r. JobRole r = role g \<and> Attrition r = Some 0) rows)) / real (count_JobRole g)"
    by (simp add: cnt s rk f1 rate_lambda_def)
  have p5: "(\<forall>r\<in>set rows. JobRole r = role g \<longrightarrow> Attrition r = Some 1 \<or> Attrition r = Some 0) \<longrightarrow>
            attrition_left g + attrition_stay g = 100 \<and>
            \<bar>attrition_left g + attrition_stay g - 100\<bar> \<le> 1 / 10 ^ 9"
    using sum by (simp add: l s)
  show ?thesis by (rule conjI [OF p1 conjI [OF p2 conjI [OF p3 conjI [OF p4 p5]]]])
qed

theorem rates_sum_to_100_witness:
  "jobrole_attr clerks [clerks_agg] \<and>
   list_all (\<lambda>r. JobRole r = role clerks_agg \<longrightarrow> Attrition r = Some 1 \<or> Attrition r = Some 0)
     clerks \<and>
   attrition_left clerks_agg + attrition_stay clerks_agg = 100"
proof -
  have a: "jobrole_attr clerks [clerks_agg]" by code_simp
  have m: "clerks_agg \<in> set [clerks_agg]" by simp
  have b: "\<forall>r\<in>set clerks. JobRole r = role clerks_agg \<longrightarrow> Attrition r = Some 1 \<or> Attrition r = Some 0"
    by (simp add: clerks_def clerks_agg_def eval_defs)
  note t = rates_sum_to_100 [OF a m, THEN conjunct2, THEN conjunct2, THEN conjunct2,
      THEN conjunct2, rule_format]
  from t b have "attrition_left clerks_agg + attrition_stay clerks_agg = 100" by simp
  with a b show ?thesis by (simp add: list_all_iff)
qed

text \<open>
  A group whose only row has the label Maybe has one member, and both of its rates
  are 0: the NaN cell counts in \<^verbatim>\<open>len(x)\<close> and in neither sum.
\<close>

theorem rates_sum_counterexample:
  "groupby_JobRole (load_data [employee ''Clerk'' ''Maybe'' ''No'' 1 3 1])
     = [\<lparr>role = ''Clerk'', count_JobRole = 1, attrition_left = 0, attrition_stay = 0\<rparr>]
   \<and> jobrole_attr (load_data [employee ''Clerk'' ''Maybe'' ''No'' 1 3 1])
       [\<lparr>role = ''Clerk'', count_JobRole = 1, attrition_left = 0, attrition_stay = 0\<rparr>]
   \<and> \<not> \<bar>(0::real) + 0 - 100\<bar> \<le> 1 / 10 ^ 9"
  by code_simp

section \<open>Rows with an unrecognised label\<close>

lemma rate_sum_less:
  assumes "None \<in> set x"
  shows "rate_lambda 1 x + rate_lambda 0 x < 100"
proof -
  have ne: "x \<noteq> []" using assms by auto
  have "0 < length (filter (\<lambda>a. a \<noteq> Some (1::int) \<and> a \<noteq> Some 0) x)"
    using assms by (auto simp: filter_empty_conv)
  with count_three [of x]
  have lt: "length (filter (\<lambda>a. a = Some (1::int)) x) + length (filter (\<lambda>a. a = Some 0) x) < length x"
    by linarith
  have "length (filter (\<lambda>a. a = Some (1::int) \<or> a = Some 0) x)
      = length (filter (\<lambda>a. a = Some 1) x) + length (filter (\<lambda>a. a = Some 0) x)"
    by (induction x) auto
  with lt have "real (length (filter (\<lambda>a. a = Some (1::int) \<or> a = Some 0) x)) < real (length x)"
    by simp
  then have "100 * real (length (filter (\<lambda>a. a = Some (1::int) \<or> a = Some 0) x)) / real (length x) < 100"
    using ne by (simp add: divide_simps)
  then show ?thesis using rate_sum [OF ne] by simp
qed

text \<open>
  Claim C7, as the script has it. A row whose attrition label is neither Yes nor No
  stays in the table: the table keeps its length, the row keeps its place and its
  other columns, and its \<^verbatim>\<open>Attrition\<close> cell is NaN. The row is counted in the group of
  its job role, whose left and stayed rates then add up to less than 100.
\<close>

theorem unrecognised_label_kept_as_missing:
  assumes "i < length csv"
    and "Attrition_label (csv ! i) \<noteq> ''Yes''" and "Attrition_label (csv ! i) \<noteq> ''No''"
    and "jobrole_attr (load_data csv) tbl"
  shows "length (load_data csv) = length csv \<and>
         csv_row.truncate (load_data csv ! i) = csv ! i \<and>
         Attrition (load_data csv ! i) = None \<and>
         (\<exists>g\<in>set tbl. role g = JobRole (csv ! i) \<and>
            count_JobRole g = length (filter (\<lambda>c. JobRole c = JobRole (csv ! i)) csv) \<and>
            attrition_left g + attrition_stay g < 100)"
proof -
  let ?rows = "load_data csv"
  let ?k = "JobRole (csv ! i)"
  have nth: "?rows ! i = derive (csv ! i)" using assms(1) by (simp add: load_data_def)
  have att: "Attrition (?rows ! i) = None"
    using assms(2,3) by (simp add: nth derive_def map_Attrition_def row.defs csv_row.defs)
  have tr: "csv_row.truncate (?rows ! i) = csv ! i"
    by (simp add: nth derive_def row.defs csv_row.defs)
  have role_i: "JobRole (?rows ! i) = ?k"
    by (simp add: nth derive_def row.defs csv_row.defs)
  have mem: "?rows ! i \<in> set ?rows" using assms(1) by (simp add: length_load_data)
  let ?g = "agg_JobRole ?rows ?k"
  let ?x = "map Attrition (filter (\<lambda>r. JobRole r = ?k) ?rows)"
  have "?rows ! i \<in> set (filter (\<lambda>r. JobRole r = ?k) ?rows)" using mem role_i by simp
  then have "Attrition (?rows ! i) \<in> set ?x" by (simp only: set_map) (rule imageI)
  then have none: "None \<in> set ?x" using att by simp
  have "?k \<in> JobRole ` set ?rows" using mem role_i by (metis imageI)
  then have g_in: "?g \<in> set tbl"
    unfolding set_jobrole_attr [OF assms(4)] by (rule imageI)
  have jr: "JobRole (derive c) = JobRole c" for c
    by (simp add: derive_def row.defs csv_row.defs)
  have cnt: "count_JobRole ?g = length (filter (\<lambda>c. JobRole c = ?k) csv)"
    by (simp add: agg_JobRole_def Let_def load_data_def filter_map o_def jr)
  have lt: "attrition_left ?g + attrition_stay ?g < 100"
    using rate_sum_less [OF none] by (simp add: agg_JobRole_def Let_def)
  have "role ?g = ?k" by (rule role_agg_JobRole)
  with g_in cnt lt have "\<exists>g\<in>set tbl. role g = ?k \<and>
            count_JobRole g = length (filter (\<lambda>c. JobRole c = ?k) csv) \<and>
            attrition_left g + attrition_stay g < 100"
    by (intro bexI [of _ ?g]) simp_all
  with att tr show ?thesis by (simp add: length_load_data)
qed

theorem unrecognised_label_kept_witness:
  "0 < length maybe_csv \<and> Attrition_label (maybe_csv ! 0) \<noteq> ''Yes'' \<and> Attrition_label (maybe_csv ! 0) \<noteq> ''No''
   \<and> jobrole_attr (load_data maybe_csv) [role_row ''Clerk'' 1 0 0]
   \<and> length (load_data maybe_csv) = length maybe_csv \<and> Attrition (load_data maybe_csv ! 0) = None"
proof -
  have a: "0 < length maybe_csv" by (simp add: maybe_csv_def)
  have b: "Attrition_label (maybe_csv ! 0) \<noteq> ''Yes''" by (simp add: maybe_csv_def employee_def)
  have c: "Attrition_label (maybe_csv ! 0) \<noteq> ''No''" by (simp add: maybe_csv_def employee_def)
  have d: "jobrole_attr (load_data maybe_csv) [role_row ''Clerk'' 1 0 0]" by code_simp
  note t = unrecognised_label_kept_as_missing [OF a b c d]
  from t [THEN conjunct1] t [THEN conjunct2, THEN conjunct2, THEN conjunct1] a b c d
  show ?thesis by simp
qed

text \<open>
  A table of one row with the label Maybe: the loaded table is not empty, the cell is
  NaN, and the grouping counts the row.
\<close>

theorem unrecognised_label_not_dropped_counterexample:
  "Attrition_label (employee ''Clerk'' ''Maybe'' ''No'' 1 3 1) \<noteq> ''Yes'' \<and>
   Attrition_label (employee ''Clerk'' ''Maybe'' ''No'' 1 3 1) \<noteq> ''No'' \<and>
   load_data [employee ''Clerk'' ''Maybe'' ''No'' 1 3 1] \<noteq> [] \<and>
   map Attrition (load_data [employee ''Clerk'' ''Maybe'' ''No'' 1 3 1]) = [None] \<and>
   map count_JobRole (groupby_JobRole (load_data [employee ''Clerk'' ''Maybe'' ''No'' 1 3 1])) = [1]"
  by (simp add: eval_defs)

section \<open>A filter that matches no row\<close>




section \<open>The order of the job role ranking\<close>

lemma sort_values_desc_keys:
  assumes "sort_values_desc f xs ys"
  shows "map f ys = rev (sort (map f xs))"
proof -
  from assms have m: "mset ys = mset xs" and s: "sorted_wrt (\<lambda>a b. f b \<le> f a) ys"
    by (simp_all add: sort_values_desc_def)
  have "sorted (rev (map f ys))"
    using s by (simp add: sorted_wrt_rev sorted_wrt_map flip: rev_map)
  moreover have "mset (rev (map f ys)) = mset (map f xs)"
    using m by simp
  ultimately have "sort (map f xs) = rev (map f ys)" by (intro properties_for_sort)
  then show ?thesis by simp
qed

lemma roles_of_table:
  assumes "jobrole_attr rows tbl"
  shows "distinct (map role tbl)" and "set (map role tbl) = JobRole ` set rows"
proof -
  from assms have "mset tbl = mset (groupby_JobRole rows)"
    by (simp add: jobrole_attr_def sort_values_desc_def)
  then have "mset (map role tbl) = mset (map role (groupby_JobRole rows))"
    by simp
  also have "map role (groupby_JobRole rows) = group_keys JobRole rows"
    by (simp add: groupby_JobRole_def o_def role_agg_JobRole)
  finally have m: "mset (map role tbl) = mset (group_keys JobRole rows)" .
  from mset_eq_imp_distinct_iff [OF m] show "distinct (map role tbl)"
    by (simp add: distinct_group_keys)
  from mset_eq_setD [OF m] show "set (map role tbl) = JobRole ` set rows"
    by (simp add: set_group_keys)
qed

lemma abc_groups:
  "groupby_JobRole abc_table = [role_row ''A'' 5 40 60, role_row ''B'' 5 40 60, role_row ''C'' 4 25 75]"
  by code_simp

lemma abc_orders:
  assumes "jobrole_attr abc_table t"
  shows "map role t = [''A'', ''B'', ''C''] \<or> map role t = [''B'', ''A'', ''C'']"
proof -
  let ?a = "role_row ''A'' 5 40 60" and ?b = "role_row ''B'' 5 40 60" and ?c = "role_row ''C'' 4 25 75"
  from assms have sv: "sort_values_desc attrition_left [?a, ?b, ?c] t"
    by (simp add: jobrole_attr_def abc_groups)
  then have m: "mset t = mset [?a, ?b, ?c]" by (simp add: sort_values_desc_def)
  have k: "map attrition_left t = [40, 40, 25]"
    using sort_values_desc_keys [OF sv] by (simp add: role_row_def)
  then obtain x y z where t: "t = [x, y, z]" by (auto simp: map_eq_Cons_conv)
  from mset_eq_setD [OF m] have st: "set t = {?a, ?b, ?c}" by simp
  have d: "distinct t" using mset_eq_imp_distinct_iff [OF m] by (simp add: role_row_def)
  from k t have f: "attrition_left x = 40" "attrition_left y = 40" "attrition_left z = 25" by simp_all
  from st t have "x \<in> {?a, ?b, ?c}" "y \<in> {?a, ?b, ?c}" "z \<in> {?a, ?b, ?c}" by auto
  with f have "x = ?a \<or> x = ?b" "y = ?a \<or> y = ?b" "z = ?c" by (auto simp: role_row_def)
  moreover from d t have "x \<noteq> y" by simp
  ultimately show ?thesis unfolding t by (auto simp: role_row_def)
qed

text \<open>
  Claim C3, as the script has it. A job role table is in decreasing order of the left
  rate and holds the groups of the table, one for each job role; its column of left
  rates is the sorted column of the groups. The order of job roles with the same left
  rate is not fixed. For the roles A, B and C with the left rates 40, 40 and 25 the
  table may read A, B, C and may read B, A, C, and it reads nothing else.
\<close>

theorem ranking_order:
  assumes "jobrole_attr rows tbl"
  shows "sorted_wrt (\<lambda>a b. attrition_left b \<le> attrition_left a) tbl \<and>
         mset tbl = mset (groupby_JobRole rows) \<and>
         map attrition_left tbl = rev (sort (map attrition_left (groupby_JobRole rows))) \<and>
         distinct (map role tbl) \<and> set (map role tbl) = JobRole ` set rows \<and>
         jobrole_attr abc_table [role_row ''A'' 5 40 60, role_row ''B'' 5 40 60, role_row ''C'' 4 25 75] \<and>
         jobrole_attr abc_table [role_row ''B'' 5 40 60, role_row ''A'' 5 40 60, role_row ''C'' 4 25 75] \<and>
         (\<forall>t. jobrole_attr abc_table t \<longrightarrow>
              map role t = [''A'', ''B'', ''C''] \<or> map role t = [''B'', ''A'', ''C''])"
proof -
  from assms have sv: "sort_values_desc attrition_left (groupby_JobRole rows) tbl"
    by (simp add: jobrole_attr_def)
  have p1: "sorted_wrt (\<lambda>a b. attrition_left b \<le> attrition_left a) tbl"
    and p2: "mset tbl = mset (groupby_JobRole rows)"
    using sv by (simp_all add: sort_values_desc_def)
  have p3: "map attrition_left tbl = rev (sort (map attrition_left (groupby_JobRole rows)))"
    using sv by (rule sort_values_desc_keys)
  note p4 = roles_of_table(1) [OF assms] and p5 = roles_of_table(2) [OF assms]
  have p6: "jobrole_attr abc_table [role_row ''A'' 5 40 60, role_row ''B'' 5 40 60, role_row ''C'' 4 25 75]"
    by code_simp
  have p7: "jobrole_attr abc_table [role_row ''B'' 5 40 60, role_row ''A'' 5 40 60, role_row ''C'' 4 25 75]"
    by code_simp
  have p8: "\<forall>t. jobrole_attr abc_table t \<longrightarrow>
              map role t = [''A'', ''B'', ''C''] \<or> map role t = [''B'', ''A'', ''C'']"
    using abc_orders by blast
  show ?thesis
    by (rule conjI [OF p1 conjI [OF p2 conjI [OF p3 conjI [OF p4 conjI [OF p5 conjI [OF p6 conjI [OF p7 p8]]]]]]])
qed

theorem ranking_order_witness:
  "jobrole_attr abc_table [role_row ''B'' 5 40 60, role_row ''A'' 5 40 60, role_row ''C'' 4 25 75] \<and>
   map JobRole abc_table ! 0 = ''B'' \<and>
   map attrition_left [role_row ''B'' 5 40 60, role_row ''A'' 5 40 60, role_row ''C'' 4 25 75]
     = rev (sort (map attrition_left (groupby_JobRole abc_table))) \<and>
   map attrition_left [role_row ''B'' 5 40 60, role_row ''A'' 5 40 60, role_row ''C'' 4 25 75] = [40, 40, 25]"
proof -
  have a: "jobrole_attr abc_table [role_row ''B'' 5 40 60, role_row ''A'' 5 40 60, role_row ''C'' 4 25 75]"
    by code_simp
  have b: "map JobRole abc_table ! 0 = ''B''" by code_simp
  have c: "map attrition_left [role_row ''B'' 5 40 60, role_row ''A'' 5 40 60, role_row ''C'' 4 25 75] = [40, 40, 25]"
    by (simp add: role_row_def)
  from ranking_order [OF a, THEN conjunct2, THEN conjunct2, THEN conjunct1] a b c
  show ?thesis by simp
qed

text \<open>
  Manager, Analyst and Sales appear in this order in the rows, all with the left rate
  100. The tables in the order of the names and in the reverse order of the names are
  both tables the script may compute, and neither is in the order of appearance.
\<close>

theorem ranking_tie_counterexample:
  "map JobRole three_roles = [''Manager'', ''Analyst'', ''Sales''] \<and>
   jobrole_attr three_roles
     [role_row ''Analyst'' 1 100 0, role_row ''Manager'' 1 100 0, role_row ''Sales'' 1 100 0] \<and>
   jobrole_attr three_roles
     [role_row ''Sales'' 1 100 0, role_row ''Manager'' 1 100 0, role_row ''Analyst'' 1 100 0]"
  by code_simp

end
